theory Spec2Isabelle
  imports Complex_Main "HOL-Library.Char_ord" "HOL-Library.List_Lexorder"
    "HOL-Library.Product_Lexorder"
begin

section \<open>Strings\<close>

text \<open>
  Python strings are modelled as \<open>string\<close>: a character is a code point from 0 to 255,
  and strings are ordered lexicographically by code point as Python orders \<open>str\<close>.
  \<open>str.lower\<close> maps the capital letters of that range (\<open>A\<close> to \<open>Z\<close>, and U+00C0 to
  U+00DE except the multiplication sign U+00D7) to the letter 32 code points above and
  leaves every other character of the range unchanged.  \<open>str.strip\<close> removes the
  whitespace of that range from both ends: U+0009 to U+000D, U+001C to U+0020, U+0085
  and U+00A0.
\<close>

definition upper_chars :: string where
  "upper_chars = ''ABCDEFGHIJKLMNOPQRSTUVWXYZ''
     @ [CHR 0xC0, CHR 0xC1, CHR 0xC2, CHR 0xC3, CHR 0xC4, CHR 0xC5, CHR 0xC6, CHR 0xC7,
        CHR 0xC8, CHR 0xC9, CHR 0xCA, CHR 0xCB, CHR 0xCC, CHR 0xCD, CHR 0xCE, CHR 0xCF,
        CHR 0xD0, CHR 0xD1, CHR 0xD2, CHR 0xD3, CHR 0xD4, CHR 0xD5, CHR 0xD6,
        CHR 0xD8, CHR 0xD9, CHR 0xDA, CHR 0xDB, CHR 0xDC, CHR 0xDD, CHR 0xDE]"

definition lower_chars :: string where
  "lower_chars = ''abcdefghijklmnopqrstuvwxyz''
     @ [CHR 0xE0, CHR 0xE1, CHR 0xE2, CHR 0xE3, CHR 0xE4, CHR 0xE5, CHR 0xE6, CHR 0xE7,
        CHR 0xE8, CHR 0xE9, CHR 0xEA, CHR 0xEB, CHR 0xEC, CHR 0xED, CHR 0xEE, CHR 0xEF,
        CHR 0xF0, CHR 0xF1, CHR 0xF2, CHR 0xF3, CHR 0xF4, CHR 0xF5, CHR 0xF6,
        CHR 0xF8, CHR 0xF9, CHR 0xFA, CHR 0xFB, CHR 0xFC, CHR 0xFD, CHR 0xFE]"

definition lower_char :: "char \<Rightarrow> char" where
  "lower_char c =
     (case map_of (zip upper_chars lower_chars) c of
        Some l \<Rightarrow> l
      | None \<Rightarrow> c)"

definition lower :: "string \<Rightarrow> string" where
  "lower s = map lower_char s"

definition is_space :: "char \<Rightarrow> bool" where
  "is_space c = (c \<in> set [CHR '' '', CHR 0x09, CHR 0x0A, CHR 0x0B, CHR 0x0C, CHR 0x0D,
                            CHR 0x1C, CHR 0x1D, CHR 0x1E, CHR 0x1F, CHR 0x85, CHR 0xA0])"

definition strip :: "string \<Rightarrow> string" where
  "strip s = rev (dropWhile is_space (rev (dropWhile is_space s)))"

text \<open>Python's \<open>a in b\<close> on strings: \<open>a\<close> occurs in \<open>b\<close> as a contiguous substring.\<close>

fun str_in :: "string \<Rightarrow> string \<Rightarrow> bool" where
  "str_in a [] = (a = [])"
| "str_in a (c # cs) = (take (length a) (c # cs) = a \<or> str_in a cs)"

section \<open>Module state of tools.py\<close>

record service_info =
  serviceName :: string
  directDependencies :: "string list"
  consumedBy :: "string list"

record business_event =
  eventName :: string
  startDate :: string
  endDate :: string
  impactedSystems :: "string list"
  criticality :: string
  blackoutWindow :: bool

record datetime =
  year :: nat
  month :: nat
  day :: nat
  hour :: nat
  minute :: nat
  second :: nat
  microsecond :: nat

text \<open>
  The globals set by \<open>initialize_tools_data\<close>: the two lists of the dataset that the
  tools read, the dependency graph (a dict, kept as an association list in insertion
  order) and the alias table.  Two library functions the tools call are parameters of
  the state: \<open>scorer q c\<close> is the score (0 to 100) that thefuzz gives the choice \<open>c\<close>
  for the query \<open>q\<close> with its default processor and scorer, and \<open>fromisoformat\<close> is
  \<open>datetime.fromisoformat\<close>, \<open>None\<close> where it raises \<open>ValueError\<close>.  Timestamps are
  naive (no UTC offset).
\<close>

record env =
  serviceDependencies :: "service_info list"
  businessEvents :: "business_event list"
  dep_graph :: "(string \<times> string list) list"
  aliases :: "(string \<times> string) list"
  scorer :: "string \<Rightarrow> string \<Rightarrow> real"
  fromisoformat :: "string \<Rightarrow> datetime option"

text \<open>The alias table that \<open>startup_event\<close> of main.py installs.\<close>

definition SERVICE_ALIASES :: "(string \<times> string) list" where
  "SERVICE_ALIASES =
     [(''database server'', ''Database Server''),
      (''api gateway'', ''API Gateway''),
      (''authservice'', ''auth-service''),
      (''paymentgateway'', ''payment-api''),
      (''user database'', ''user-database''),
      (''billing service'', ''billing-service''),
      (''checkout ui'', ''checkout-ui''),
      (''payment api'', ''payment-api''),
      (''auth service'', ''auth-service'')]"

text \<open>
  The dict comprehension of \<open>startup_event\<close> that builds the graph: a later entry with
  the same service name overwrites the value and keeps the key's place.
\<close>

fun dict_set :: "('k \<times> 'v) list \<Rightarrow> 'k \<Rightarrow> 'v \<Rightarrow> ('k \<times> 'v) list" where
  "dict_set [] k v = [(k, v)]"
| "dict_set ((k', v') # kvs) k v =
     (if k' = k then (k, v) # kvs else (k', v') # dict_set kvs k v)"

definition build_graph :: "service_info list \<Rightarrow> (string \<times> string list) list" where
  "build_graph sds = foldl (\<lambda>g s. dict_set g (serviceName s) (directDependencies s)) [] sds"

section \<open>Service-name normalization\<close>

text \<open>
  \<open>process.extractOne(query, choices, score_cutoff=c)\<close>: the first choice of maximal
  score among those scoring at least the cutoff, with its score; \<open>None\<close> when no choice
  reaches the cutoff.
\<close>

fun extractOne :: "(string \<Rightarrow> string \<Rightarrow> real) \<Rightarrow> string \<Rightarrow> string list \<Rightarrow> real
    \<Rightarrow> (string \<times> real) option" where
  "extractOne sc q [] cutoff = None"
| "extractOne sc q (c # cs) cutoff =
     (if sc q c < cutoff then extractOne sc q cs cutoff
      else (case extractOne sc q cs cutoff of
              None \<Rightarrow> Some (c, sc q c)
            | Some (b, s) \<Rightarrow> if sc q c < s then Some (b, s) else Some (c, sc q c)))"

definition normalize_service_name :: "env \<Rightarrow> string \<Rightarrow> string" where
  "normalize_service_name e name =
     (if name = [] then name
      else
        let aliased_name = (case map_of (aliases e) (strip (lower name)) of
                              Some a \<Rightarrow> a
                            | None \<Rightarrow> name);
            known_services = map fst (dep_graph e)
        in (case extractOne (scorer e) aliased_name known_services 85 of
              Some (best_match, score) \<Rightarrow> best_match
            | None \<Rightarrow> aliased_name))"

section \<open>Dependency-impact analysis\<close>

text \<open>
  The impacted set (a Python \<open>set\<close>) is kept as a list without repetitions; every use
  of it is a membership test, and the results are sorted.  \<open>tg\<close> is
  \<open>all_target_systems_set\<close>.  The body of \<open>find_downstream\<close> has two loops: the first
  (\<open>visit_deps\<close>) walks the forward edges and calls \<open>find_downstream\<close> on each name
  it adds, the second (\<open>scan_consumers\<close>) walks the service list and adds every service
  whose \<open>consumedBy\<close> list contains the current node.
\<close>

fun scan_consumers :: "env \<Rightarrow> string list \<Rightarrow> string \<Rightarrow> service_info list \<Rightarrow> string list
    \<Rightarrow> string list" where
  "scan_consumers e tg normalized_system [] imp = imp"
| "scan_consumers e tg normalized_system (service_info # rest) imp =
     (let current_svc_name = normalize_service_name e (serviceName service_info);
          consumed_by_list = map (normalize_service_name e) (consumedBy service_info)
      in scan_consumers e tg normalized_system rest
           (if normalized_system \<in> set consumed_by_list \<and> current_svc_name \<notin> set imp
               \<and> current_svc_name \<notin> set tg
            then current_svc_name # imp else imp))"

function find_downstream :: "env \<Rightarrow> string list \<Rightarrow> string \<Rightarrow> string list \<Rightarrow> string list"
  and visit_deps :: "env \<Rightarrow> string list \<Rightarrow> string list \<Rightarrow> string list \<Rightarrow> string list"
where
  "find_downstream e tg system_name imp =
     (let normalized_system = normalize_service_name e system_name
      in (case map_of (dep_graph e) normalized_system of
            None \<Rightarrow> imp
          | Some deps \<Rightarrow>
              scan_consumers e tg normalized_system (serviceDependencies e)
                (visit_deps e tg deps imp)))"
| "visit_deps e tg [] imp = imp"
| "visit_deps e tg (dep # deps) imp =
     (let normalized_dep = normalize_service_name e dep
      in if normalized_dep \<notin> set imp \<and> normalized_dep \<notin> set tg
         then visit_deps e tg deps (find_downstream e tg normalized_dep (normalized_dep # imp))
         else visit_deps e tg deps imp)"
  by pat_completeness auto

text \<open>
  The recursion is nested: the impacted set handed to the rest of the loop is the one
  the recursive call returns.  It terminates because that set only grows, and every
  recursive call is made on a name just added, taken from the finitely many normalized
  edge targets.
\<close>

lemma scan_consumers_mono: "set imp \<subseteq> set (scan_consumers e tg ns sis imp)"
proof (induction sis arbitrary: imp)
  case Nil
  then show ?case by simp
next
  case (Cons si sis)
  let ?imp' = "if ns \<in> set (map (normalize_service_name e) (consumedBy si))
                  \<and> normalize_service_name e (serviceName si) \<notin> set imp
                  \<and> normalize_service_name e (serviceName si) \<notin> set tg
               then normalize_service_name e (serviceName si) # imp else imp"
  have "set imp \<subseteq> set ?imp'" by auto
  also have "\<dots> \<subseteq> set (scan_consumers e tg ns sis ?imp')" by (rule Cons.IH)
  finally show ?case by (simp add: Let_def)
qed

lemma find_downstream_dom_mono:
  "find_downstream_visit_deps_dom (Inl (e, tg, s, imp)) \<Longrightarrow>
     set imp \<subseteq> set (find_downstream e tg s imp)"
  "find_downstream_visit_deps_dom (Inr (e, tg, ds, imp)) \<Longrightarrow>
     set imp \<subseteq> set (visit_deps e tg ds imp)"
proof (induction e tg s imp and e tg ds imp rule: find_downstream_visit_deps.pinduct)
  case (1 e tg system_name imp)
  show ?case
  proof (cases "map_of (dep_graph e) (normalize_service_name e system_name)")
    case None
    then show ?thesis using "1.hyps" by (simp add: find_downstream.psimps)
  next
    case (Some deps)
    have "set imp \<subseteq> set (visit_deps e tg deps imp)"
      using "1.IH" Some by simp
    also have "\<dots> \<subseteq> set (scan_consumers e tg (normalize_service_name e system_name)
                            (serviceDependencies e) (visit_deps e tg deps imp))"
      by (rule scan_consumers_mono)
    finally show ?thesis using "1.hyps" Some by (simp add: find_downstream.psimps)
  qed
next
  case (2 e tg imp)
  then show ?case by (simp add: visit_deps.psimps)
next
  case (3 e tg dep deps imp)
  then show ?case
    by (auto simp: visit_deps.psimps Let_def split: if_splits)
qed

definition edge_names :: "env \<Rightarrow> string set" where
  "edge_names e = normalize_service_name e ` set (concat (map snd (dep_graph e)))"

definition fd_measure ::
    "env \<times> string list \<times> string \<times> string list + env \<times> string list \<times> string list \<times> string list
     \<Rightarrow> nat \<times> nat \<times> nat" where
  "fd_measure a = (case a of
       Inl (e, tg, s, imp) \<Rightarrow> (card (edge_names e - set imp), 1, 0)
     | Inr (e, tg, ds, imp) \<Rightarrow>
         (card ((edge_names e \<union> normalize_service_name e ` set ds) - set imp), 0, length ds))"

lemma finite_edge_names: "finite (edge_names e)"
  by (simp add: edge_names_def)

lemma map_of_edge_names:
  "map_of (dep_graph e) k = Some ds \<Longrightarrow> normalize_service_name e ` set ds \<subseteq> edge_names e"
  by (auto simp: edge_names_def dest!: map_of_SomeD) force

termination find_downstream
proof (relation "inv_image (less_than <*lex*> less_than <*lex*> less_than) fd_measure")
  show "wf (inv_image (less_than <*lex*> less_than <*lex*> less_than) fd_measure)"
    by (intro wf_inv_image wf_lex_prod wf_less_than)
next
  fix e tg system_name imp x x2
  assume "x = normalize_service_name e system_name" "map_of (dep_graph e) x = Some x2"
  then have "edge_names e \<union> normalize_service_name e ` set x2 = edge_names e"
    using map_of_edge_names by blast
  then show "(Inr (e, tg, x2, imp), Inl (e, tg, system_name, imp))
     \<in> inv_image (less_than <*lex*> less_than <*lex*> less_than) fd_measure"
    by (simp add: fd_measure_def)
next
  fix e tg dep deps imp x
  assume x: "x = normalize_service_name e dep" and n: "x \<notin> set imp \<and> x \<notin> set tg"
  let ?A = "(edge_names e \<union> normalize_service_name e ` set (dep # deps)) - set imp"
  have fin: "finite ?A" using finite_edge_names by simp
  have "edge_names e - set (x # imp) \<subseteq> ?A - {x}" by auto
  moreover have "x \<in> ?A" using x n by simp
  ultimately have "card (edge_names e - set (x # imp)) < card ?A"
    by (metis fin card_Diff1_less card_mono finite_Diff le_less_trans)
  then show "(Inl (e, tg, x, x # imp), Inr (e, tg, dep # deps, imp))
     \<in> inv_image (less_than <*lex*> less_than <*lex*> less_than) fd_measure"
    by (simp add: fd_measure_def)
next
  fix e tg dep deps imp x
  assume x: "x = normalize_service_name e dep" and n: "x \<notin> set imp \<and> x \<notin> set tg"
    and dom: "find_downstream_visit_deps_dom (Inl (e, tg, x, x # imp))"
  let ?r = "find_downstream e tg x (x # imp)"
  let ?A = "(edge_names e \<union> normalize_service_name e ` set (dep # deps)) - set imp"
  have "set (x # imp) \<subseteq> set ?r" using find_downstream_dom_mono(1)[OF dom] .
  then have "(edge_names e \<union> normalize_service_name e ` set deps) - set ?r \<subseteq> ?A" by auto
  moreover have "finite ?A" using finite_edge_names by simp
  ultimately have "card ((edge_names e \<union> normalize_service_name e ` set deps) - set ?r) \<le> card ?A"
    by (rule card_mono[rotated])
  then show "(Inr (e, tg, deps, ?r), Inr (e, tg, dep # deps, imp))
     \<in> inv_image (less_than <*lex*> less_than <*lex*> less_than) fd_measure"
    by (auto simp: fd_measure_def)
next
  fix e tg dep deps imp x
  assume "x = normalize_service_name e dep" "\<not> (x \<notin> set imp \<and> x \<notin> set tg)"
  have "(edge_names e \<union> normalize_service_name e ` set deps) - set imp
      \<subseteq> (edge_names e \<union> normalize_service_name e ` set (dep # deps)) - set imp" by auto
  moreover have "finite ((edge_names e \<union> normalize_service_name e ` set (dep # deps)) - set imp)"
    using finite_edge_names by simp
  ultimately have "card ((edge_names e \<union> normalize_service_name e ` set deps) - set imp)
      \<le> card ((edge_names e \<union> normalize_service_name e ` set (dep # deps)) - set imp)"
    by (rule card_mono[rotated])
  then show "(Inr (e, tg, deps, imp), Inr (e, tg, dep # deps, imp))
     \<in> inv_image (less_than <*lex*> less_than <*lex*> less_than) fd_measure"
    by (auto simp: fd_measure_def)
qed

text \<open>Decimal rendering of a number in an f-string.\<close>

definition digit_char :: "nat \<Rightarrow> char" where
  "digit_char n = ''0123456789'' ! n"

fun str_nat :: "nat \<Rightarrow> string" where
  "str_nat n = (if n < 10 then [digit_char n] else str_nat (n div 10) @ [digit_char (n mod 10)])"

declare str_nat.simps [simp del]

record dependency_analysis =
  target_systems_analyzed :: "string list"
  impacted_dependencies :: "string list"
  dependency_summary :: string
  all_involved_services :: "string list"

definition analyze_service_dependencies :: "env \<Rightarrow> string list \<Rightarrow> dependency_analysis" where
  "analyze_service_dependencies e target_systems =
     (let normalized_target_systems =
            map (normalize_service_name e) (filter (\<lambda>s. s \<noteq> []) target_systems);
          all_target_systems_set = remdups normalized_target_systems;
          impacted =
            foldl (\<lambda>imp system. find_downstream e all_target_systems_set system imp)
              [] normalized_target_systems;
          involved = remdups (all_target_systems_set @ impacted);
          final_impacted_only_downstream =
            sort (filter (\<lambda>d. d \<notin> set all_target_systems_set) impacted)
      in \<lparr> target_systems_analyzed = sort all_target_systems_set,
           impacted_dependencies = final_impacted_only_downstream,
           dependency_summary =
             (if final_impacted_only_downstream = []
              then ''No significant additional downstream dependencies detected.''
              else ''Change impacts '' @ str_nat (length final_impacted_only_downstream)
                   @ '' additional downstream services beyond targeted systems.''),
           all_involved_services = sort involved \<rparr>)"

section \<open>Dates and times\<close>

text \<open>
  A \<open>datetime\<close> is compared field by field, from the year down.  The exceptions that the
  date arithmetic and the parsers raise are values of \<open>py_error\<close>.
\<close>

datatype py_error = ValueError | OverflowError

definition is_leap :: "nat \<Rightarrow> bool" where
  "is_leap y = (y mod 4 = 0 \<and> (y mod 100 \<noteq> 0 \<or> y mod 400 = 0))"

definition days_in_month :: "nat \<Rightarrow> nat \<Rightarrow> nat" where
  "days_in_month y m =
     (if m = 2 then (if is_leap y then 29 else 28)
      else if m = 4 \<or> m = 6 \<or> m = 9 \<or> m = 11 then 30 else 31)"

definition valid_datetime :: "datetime \<Rightarrow> bool" where
  "valid_datetime dt =
     (1 \<le> year dt \<and> year dt \<le> 9999 \<and> 1 \<le> month dt \<and> month dt \<le> 12
      \<and> 1 \<le> day dt \<and> day dt \<le> days_in_month (year dt) (month dt)
      \<and> hour dt < 24 \<and> minute dt < 60 \<and> second dt < 60 \<and> microsecond dt < 1000000)"

definition dt_key :: "datetime \<Rightarrow> nat \<times> nat \<times> nat \<times> nat \<times> nat \<times> nat \<times> nat" where
  "dt_key dt = (year dt, month dt, day dt, hour dt, minute dt, second dt, microsecond dt)"

definition dt_le :: "datetime \<Rightarrow> datetime \<Rightarrow> bool" where
  "dt_le a b = (dt_key a \<le> dt_key b)"

definition date_of :: "datetime \<Rightarrow> nat \<times> nat \<times> nat" where
  "date_of dt = (year dt, month dt, day dt)"

text \<open>
  \<open>dt + timedelta(days=1)\<close> and \<open>dt - timedelta(days=1)\<close>; Python's dates run from year
  1 to year 9999 and the step outside raises \<open>OverflowError\<close>.
\<close>

definition next_day :: "datetime \<Rightarrow> py_error + datetime" where
  "next_day dt =
     (if day dt < days_in_month (year dt) (month dt) then Inr (dt\<lparr>day := day dt + 1\<rparr>)
      else if month dt < 12 then Inr (dt\<lparr>month := month dt + 1, day := 1\<rparr>)
      else if year dt < 9999 then Inr (dt\<lparr>year := year dt + 1, month := 1, day := 1\<rparr>)
      else Inl OverflowError)"

definition prev_day :: "datetime \<Rightarrow> py_error + datetime" where
  "prev_day dt =
     (if 1 < day dt then Inr (dt\<lparr>day := day dt - 1\<rparr>)
      else if 1 < month dt
        then Inr (dt\<lparr>month := month dt - 1, day := days_in_month (year dt) (month dt - 1)\<rparr>)
      else if 1 < year dt then Inr (dt\<lparr>year := year dt - 1, month := 12, day := 31\<rparr>)
      else Inl OverflowError)"

text \<open>\<open>dt + timedelta(days=1, seconds=-1)\<close>: 86399 seconds later.\<close>

definition end_of_day_shift :: "datetime \<Rightarrow> py_error + datetime" where
  "end_of_day_shift dt =
     (let t = hour dt * 3600 + minute dt * 60 + second dt + 86399
      in if t < 86400
         then Inr (dt\<lparr>hour := t div 3600, minute := t mod 3600 div 60, second := t mod 60\<rparr>)
         else (case next_day dt of
                 Inl err \<Rightarrow> Inl err
               | Inr d \<Rightarrow> Inr (d\<lparr>hour := (t - 86400) div 3600,
                                 minute := (t - 86400) mod 3600 div 60,
                                 second := (t - 86400) mod 60\<rparr>)))"

text \<open>\<open>isoweekday\<close> (Monday is 1, Sunday is 7), from the proleptic Gregorian ordinal.\<close>

definition days_before_year :: "nat \<Rightarrow> nat" where
  "days_before_year y = (y - 1) * 365 + (y - 1) div 4 + (y - 1) div 400 - (y - 1) div 100"

definition days_before_month :: "nat \<Rightarrow> nat \<Rightarrow> nat" where
  "days_before_month y m = sum_list (map (days_in_month y) [1..<m])"

definition toordinal :: "datetime \<Rightarrow> nat" where
  "toordinal dt = days_before_year (year dt) + days_before_month (year dt) (month dt) + day dt"

definition isoweekday :: "datetime \<Rightarrow> nat" where
  "isoweekday dt = (if toordinal dt mod 7 = 0 then 7 else toordinal dt mod 7)"

text \<open>
  \<open>strftime("%b %d")\<close> in the C locale, and \<open>strptime(s, "%b %d")\<close> on the strings that
  \<open>strftime\<close> produces (the only ones the program parses): the year defaults to 1900,
  which is not a leap year, so \<open>Feb 29\<close> raises \<open>ValueError\<close>.
\<close>

definition month_abbrs :: "string list" where
  "month_abbrs = [''Jan'', ''Feb'', ''Mar'', ''Apr'', ''May'', ''Jun'',
                  ''Jul'', ''Aug'', ''Sep'', ''Oct'', ''Nov'', ''Dec'']"

definition strftime_b_d :: "datetime \<Rightarrow> string" where
  "strftime_b_d dt =
     month_abbrs ! (month dt - 1) @ '' '' @ [digit_char (day dt div 10), digit_char (day dt mod 10)]"

definition digit_of :: "char \<Rightarrow> nat option" where
  "digit_of c = map_of (zip ''0123456789'' [0, 1, 2, 3, 4, 5, 6, 7, 8, 9]) c"

definition month_of_abbr :: "string \<Rightarrow> nat option" where
  "month_of_abbr s = map_of (zip month_abbrs [1, 2, 3, 4, 5, 6, 7, 8, 9, 10, 11, 12]) s"

definition strptime_b_d :: "string \<Rightarrow> py_error + datetime" where
  "strptime_b_d s =
     (if length s = 6 \<and> s ! 3 = CHR '' ''
      then (case (month_of_abbr (take 3 s), digit_of (s ! 4), digit_of (s ! 5)) of
              (Some m, Some x, Some y) \<Rightarrow>
                if 1 \<le> 10 * x + y \<and> 10 * x + y \<le> days_in_month 1900 m
                then Inr \<lparr>year = 1900, month = m, day = 10 * x + y, hour = 0, minute = 0,
                          second = 0, microsecond = 0\<rparr>
                else Inl ValueError
            | _ \<Rightarrow> Inl ValueError)
      else Inl ValueError)"


section \<open>Business-impact evaluation\<close>

record timeline_entry =
  date :: string
  event :: string
  level :: string

record business_impact =
  business_impact_level :: string
  overall_business_risk_score :: nat
  business_impact_timeline :: "timeline_entry list"
  business_summary :: string

text \<open>
  The interval of an event: its start, and the last second of its end date.  A date
  string of the dataset that does not parse raises.
\<close>

definition event_window :: "env \<Rightarrow> business_event \<Rightarrow> py_error + datetime \<times> datetime" where
  "event_window e event_data =
     (case fromisoformat e (startDate event_data) of
        None \<Rightarrow> Inl ValueError
      | Some event_start_dt \<Rightarrow>
          (case fromisoformat e (endDate event_data) of
             None \<Rightarrow> Inl ValueError
           | Some end_dt \<Rightarrow>
               (case end_of_day_shift end_dt of
                  Inl err \<Rightarrow> Inl err
                | Inr event_end_dt \<Rightarrow> Inr (event_start_dt, event_end_dt))))"

definition impact_match :: "env \<Rightarrow> string list \<Rightarrow> business_event \<Rightarrow> bool" where
  "impact_match e normalized_involved_services event_data =
     (if ''all-systems'' \<in> set (impactedSystems event_data) then True
      else list_ex
             (\<lambda>service. lower service
                \<in> set (map (\<lambda>sys. lower (normalize_service_name e sys))
                         (impactedSystems event_data)))
             normalized_involved_services)"

definition criticality_points :: "string \<Rightarrow> nat" where
  "criticality_points lvl =
     (if lvl = ''Critical'' then 5 else if lvl = ''High'' then 3
      else if lvl = ''Medium'' then 1 else 0)"

text \<open>
  The loop over the business events, threading \<open>current_impact_events\<close> and
  \<open>overall_business_risk_score\<close>.
\<close>

fun scan_events :: "env \<Rightarrow> datetime \<Rightarrow> string list \<Rightarrow> business_event list
    \<Rightarrow> timeline_entry list \<times> nat \<Rightarrow> py_error + timeline_entry list \<times> nat" where
  "scan_events e proposed_dt nis [] acc = Inr acc"
| "scan_events e proposed_dt nis (event_data # rest) (current_impact_events, score) =
     (case event_window e event_data of
        Inl err \<Rightarrow> Inl err
      | Inr (event_start_dt, event_end_dt) \<Rightarrow>
          if dt_le event_start_dt proposed_dt \<and> dt_le proposed_dt event_end_dt
             \<and> impact_match e nis event_data
          then scan_events e proposed_dt nis rest
                 (current_impact_events
                    @ [\<lparr>date = strftime_b_d proposed_dt, event = eventName event_data,
                         level = criticality event_data\<rparr>],
                  score + criticality_points (criticality event_data)
                    + (if blackoutWindow event_data then 2 else 0))
          else scan_events e proposed_dt nis rest (current_impact_events, score))"

definition is_weekday_business_hours :: "datetime \<Rightarrow> bool" where
  "is_weekday_business_hours proposed_dt =
     (isoweekday proposed_dt \<le> 5 \<and> 9 \<le> hour proposed_dt \<and> hour proposed_dt \<le> 17)"

definition business_hours_events :: "string list" where
  "business_hours_events =
     [''Peak Hours'', ''Monthly Payroll Processing'', ''Black Friday Sale Preparation'']"

definition peak_hours_step :: "datetime \<Rightarrow> timeline_entry list \<times> nat \<Rightarrow> timeline_entry list \<times> nat" where
  "peak_hours_step proposed_dt acc =
     (case acc of (current_impact_events, score) \<Rightarrow>
        if is_weekday_business_hours proposed_dt
           \<and> \<not> list_ex (\<lambda>ev. event ev \<in> set business_hours_events) current_impact_events
        then (current_impact_events
                @ [\<lparr>date = strftime_b_d proposed_dt, event = ''Peak Hours'', level = ''Peak''\<rparr>],
              score + 1)
        else (current_impact_events, score))"

definition final_level :: "timeline_entry list \<Rightarrow> string" where
  "final_level current_impact_events =
     (if list_ex (\<lambda>ev. level ev = ''Critical'') current_impact_events then ''High''
      else if list_ex (\<lambda>ev. level ev = ''High'') current_impact_events then ''Medium''
      else if list_ex (\<lambda>ev. level ev = ''Medium'') current_impact_events
              \<and> ''Low'' \<notin> set [''High''] then ''Medium''
      else if current_impact_events = [] then ''Low''
      else ''Low'')"

text \<open>
  \<open>business_impact_timeline_display\<close>.  The impact events carry no \<open>startDate\<close> key, so
  each keeps the proposed day.
\<close>

definition timeline_display :: "datetime \<Rightarrow> timeline_entry list \<Rightarrow> string
    \<Rightarrow> py_error + timeline_entry list" where
  "timeline_display proposed_dt current_impact_events business_impact_final_level =
     (if current_impact_events = []
      then (case prev_day proposed_dt of
              Inl err \<Rightarrow> Inl err
            | Inr day_before \<Rightarrow>
                (case next_day proposed_dt of
                   Inl err \<Rightarrow> Inl err
                 | Inr day_after \<Rightarrow>
                     Inr [\<lparr>date = strftime_b_d day_before, event = ''Safe Window'', level = ''Safe''\<rparr>,
                          \<lparr>date = strftime_b_d proposed_dt, event = ''Proposed Change'',
                            level = ''Safe''\<rparr>,
                          \<lparr>date = strftime_b_d day_after, event = ''Safe Window'', level = ''Safe''\<rparr>]))
      else
        let proposed_time_level =
              (if str_in ''High'' business_impact_final_level
                  \<or> ''Critical'' \<in> set (map level current_impact_events) then ''Conflict''
               else if str_in ''Medium'' business_impact_final_level
                  \<or> ''Peak'' \<in> set (map level current_impact_events) then ''Peak''
               else ''Safe'')
        in Inr (\<lparr>date = strftime_b_d proposed_dt, event = ''Proposed Change'',
                  level = proposed_time_level\<rparr>
                # map (\<lambda>event_item. \<lparr>date = date event_item, event = event event_item,
                                        level = level event_item\<rparr>)
                    (filter (\<lambda>event_item. event event_item \<noteq> ''Proposed Change'')
                       current_impact_events)))"

text \<open>
  The merge by calendar day.  \<open>unique_timeline_items\<close> is a dict keyed by date, kept in
  insertion order.
\<close>

definition level_priority :: "string \<Rightarrow> nat" where
  "level_priority lvl =
     (case map_of [(''Critical'', 6), (''High'', 5), (''Medium'', 4), (''Peak'', 3),
                   (''Conflict'', 2), (''Safe'', 1), (''Low'', 0), (''Proposed Change'', 0)] lvl of
        Some p \<Rightarrow> p
      | None \<Rightarrow> 0)"

definition date_key :: "datetime \<Rightarrow> timeline_entry \<Rightarrow> nat \<times> nat \<times> nat" where
  "date_key proposed_dt item =
     (case strptime_b_d (date item) of
        Inr d \<Rightarrow> date_of d
      | Inl err \<Rightarrow> date_of proposed_dt)"

definition merge_item :: "((nat \<times> nat \<times> nat) \<times> timeline_entry) list \<Rightarrow> nat \<times> nat \<times> nat
    \<Rightarrow> timeline_entry \<Rightarrow> ((nat \<times> nat \<times> nat) \<times> timeline_entry) list" where
  "merge_item unique_timeline_items k item =
     (case map_of unique_timeline_items k of
        None \<Rightarrow> dict_set unique_timeline_items k item
      | Some existing \<Rightarrow>
          if level_priority (level existing) < level_priority (level item)
          then dict_set unique_timeline_items k item
          else if level_priority (level item) = level_priority (level existing)
          then (if \<not> str_in (event item) (event existing)
                then dict_set unique_timeline_items k
                       (existing\<lparr>event := event existing @ '', '' @ event item\<rparr>)
                else unique_timeline_items)
          else unique_timeline_items)"

fun merge_timeline :: "datetime \<Rightarrow> timeline_entry list
    \<Rightarrow> ((nat \<times> nat \<times> nat) \<times> timeline_entry) list
    \<Rightarrow> ((nat \<times> nat \<times> nat) \<times> timeline_entry) list" where
  "merge_timeline proposed_dt [] unique_timeline_items = unique_timeline_items"
| "merge_timeline proposed_dt (item # rest) unique_timeline_items =
     merge_timeline proposed_dt rest
       (merge_item unique_timeline_items (date_key proposed_dt item) item)"

text \<open>
  \<open>sorted(..., key=lambda x: datetime.strptime(x['date'], "%b %d"))\<close>: the keys are computed
  first, outside any handler, then the entries are sorted stably by key.
\<close>

fun sort_keys :: "timeline_entry list
    \<Rightarrow> py_error + ((nat \<times> nat \<times> nat \<times> nat \<times> nat \<times> nat \<times> nat) \<times> timeline_entry) list" where
  "sort_keys [] = Inr []"
| "sort_keys (x # xs) =
     (case strptime_b_d (date x) of
        Inl err \<Rightarrow> Inl err
      | Inr d \<Rightarrow>
          (case sort_keys xs of
             Inl err \<Rightarrow> Inl err
           | Inr ks \<Rightarrow> Inr ((dt_key d, x) # ks)))"

definition sorted_timeline :: "timeline_entry list \<Rightarrow> py_error + timeline_entry list" where
  "sorted_timeline items =
     (case sort_keys items of
        Inl err \<Rightarrow> Inl err
      | Inr ks \<Rightarrow> Inr (map snd (sort_key fst ks)))"

fun join :: "string \<Rightarrow> string list \<Rightarrow> string" where
  "join sep [] = []"
| "join sep [x] = x"
| "join sep (x # y # ys) = x @ sep @ join sep (y # ys)"

text \<open>
  The impact events and the score after the event loop and the business-hours step.
\<close>

definition impact_events :: "env \<Rightarrow> datetime \<Rightarrow> string list
    \<Rightarrow> py_error + timeline_entry list \<times> nat" where
  "impact_events e proposed_dt all_involved =
     (let normalized_involved_services =
            map (normalize_service_name e) (filter (\<lambda>s. s \<noteq> []) all_involved)
      in (case scan_events e proposed_dt normalized_involved_services (businessEvents e) ([], 0) of
            Inl err \<Rightarrow> Inl err
          | Inr acc \<Rightarrow> Inr (peak_hours_step proposed_dt acc)))"

definition assess_business_impact :: "env \<Rightarrow> string \<Rightarrow> string list \<Rightarrow> py_error + business_impact" where
  "assess_business_impact e proposed_datetime_str all_involved =
     (case fromisoformat e proposed_datetime_str of
        None \<Rightarrow> Inl ValueError
      | Some proposed_dt \<Rightarrow>
          (case impact_events e proposed_dt all_involved of
             Inl err \<Rightarrow> Inl err
           | Inr (current_impact_events, score) \<Rightarrow>
               let business_impact_final_level = final_level current_impact_events
               in (case timeline_display proposed_dt current_impact_events
                          business_impact_final_level of
                     Inl err \<Rightarrow> Inl err
                   | Inr business_impact_timeline_display \<Rightarrow>
                       (case sorted_timeline
                               (map snd (merge_timeline proposed_dt
                                           business_impact_timeline_display [])) of
                          Inl err \<Rightarrow> Inl err
                        | Inr timeline \<Rightarrow>
                            Inr \<lparr> business_impact_level = business_impact_final_level,
                                  overall_business_risk_score = score,
                                  business_impact_timeline = timeline,
                                  business_summary =
                                    ''Business impact level: '' @ business_impact_final_level
                                    @ ''. Conflicts identified: ''
                                    @ (if current_impact_events \<noteq> []
                                       then join '', '' (map event current_impact_events)
                                       else ''None.'') \<rparr>))))"

text \<open>The endpoint of main.py that passes the call through.\<close>

definition reassess_business_impact :: "env \<Rightarrow> string \<Rightarrow> string list \<Rightarrow> py_error + business_impact" where
  "reassess_business_impact e proposed_datetime all_involved =
     assess_business_impact e proposed_datetime all_involved"


section \<open>Risk aggregation\<close>

text \<open>
  The arithmetic of \<open>assess_risk\<close> in main.py, on Python floats.  A float is modelled
  by the real number it denotes, and each operation by the exact operation followed by
  a rounding: \<open>rnd x\<close> is the float that the machine gives for the exact result \<open>x\<close>,
  and \<open>round1\<close> is Python's \<open>round(x, 1)\<close>.  Both are parameters of the model.  The
  literals \<open>0.4\<close> and \<open>0.3\<close> of config.py are the floats \<open>rnd (4 / 10)\<close> and
  \<open>rnd (3 / 10)\<close>; the other literals (1.5, 3.0, 15.0, 10.0, 1.0, 3.5, 7.0) are floats
  exactly, and so are the two counts.
\<close>

record float_ops =
  rnd :: "real \<Rightarrow> real"
  round1 :: "real \<Rightarrow> real"

definition fadd :: "float_ops \<Rightarrow> real \<Rightarrow> real \<Rightarrow> real" where
  "fadd fp a b = rnd fp (a + b)"

definition fsub :: "float_ops \<Rightarrow> real \<Rightarrow> real \<Rightarrow> real" where
  "fsub fp a b = rnd fp (a - b)"

definition fmul :: "float_ops \<Rightarrow> real \<Rightarrow> real \<Rightarrow> real" where
  "fmul fp a b = rnd fp (a * b)"

definition fdiv :: "float_ops \<Rightarrow> real \<Rightarrow> real \<Rightarrow> real" where
  "fdiv fp a b = rnd fp (a / b)"

definition RISK_WEIGHTS :: "float_ops \<Rightarrow> (string \<times> real) list" where
  "RISK_WEIGHTS fp =
     [(''technical'', rnd fp (4 / 10)), (''dependency'', rnd fp (3 / 10)),
      (''business'', rnd fp (3 / 10))]"

definition PRIORITY_ADJUSTMENTS :: "(string \<times> real) list" where
  "PRIORITY_ADJUSTMENTS = [(''High'', 3 / 2), (''Critical'', 3)]"

definition MAX_CALCULATED_RISK :: real where
  "MAX_CALCULATED_RISK = 15"

definition weight :: "float_ops \<Rightarrow> string \<Rightarrow> real" where
  "weight fp k = (case map_of (RISK_WEIGHTS fp) k of Some w \<Rightarrow> w | None \<Rightarrow> 0)"

definition calculated_risk_value :: "float_ops \<Rightarrow> real \<Rightarrow> nat \<Rightarrow> nat \<Rightarrow> string \<Rightarrow> real" where
  "calculated_risk_value fp technical_risk_score num_impacted_dependencies
       business_risk_score priority =
     (let v = fadd fp
                (fadd fp (fmul fp technical_risk_score (weight fp ''technical''))
                         (fmul fp (real num_impacted_dependencies) (weight fp ''dependency'')))
                (fmul fp (real business_risk_score) (weight fp ''business''))
      in (case map_of PRIORITY_ADJUSTMENTS priority of
            Some adjustment \<Rightarrow> fadd fp v adjustment
          | None \<Rightarrow> v))"

record risk_score =
  normalized_risk :: real
  credit_score :: real
  risk_level :: string

definition assess_risk_score :: "float_ops \<Rightarrow> real \<Rightarrow> nat \<Rightarrow> nat \<Rightarrow> string \<Rightarrow> risk_score" where
  "assess_risk_score fp technical_risk_score num_impacted_dependencies
       business_risk_score priority =
     (let value = calculated_risk_value fp technical_risk_score num_impacted_dependencies
                    business_risk_score priority;
          normalized = max 1 (min 10 (fmul fp (fdiv fp value MAX_CALCULATED_RISK) 10));
          credit = round1 fp (max 1 (min 10 (fadd fp (fsub fp 10 normalized) 1)))
      in \<lparr> normalized_risk = normalized, credit_score = credit,
           risk_level = (if credit \<le> 7 / 2 then ''HIGH''
                         else if credit \<le> 7 then ''MEDIUM'' else ''LOW'') \<rparr>)"

section \<open>Notions used in the statements\<close>

text \<open>
  An event applies to a proposed instant when its interval contains the instant and it
  matches the involved services; \<open>event_points\<close> is the contribution to the score that
  the specification gives for an event; \<open>window_ok\<close> says that the dates of an event
  parse; \<open>outside_window\<close> says that they parse and the interval does not contain the
  instant.
\<close>

definition event_applies :: "env \<Rightarrow> datetime \<Rightarrow> string list \<Rightarrow> business_event \<Rightarrow> bool" where
  "event_applies e proposed_dt nis event_data =
     (case event_window e event_data of
        Inl err \<Rightarrow> False
      | Inr (event_start_dt, event_end_dt) \<Rightarrow>
          dt_le event_start_dt proposed_dt \<and> dt_le proposed_dt event_end_dt
          \<and> impact_match e nis event_data)"

definition event_points :: "business_event \<Rightarrow> nat" where
  "event_points event_data =
     (if criticality event_data = ''Critical'' then 5
      else if criticality event_data = ''High'' then 3
      else if criticality event_data = ''Medium'' then 1 else 0)
     + (if blackoutWindow event_data then 2 else 0)"

definition impact_entry :: "datetime \<Rightarrow> business_event \<Rightarrow> timeline_entry" where
  "impact_entry proposed_dt event_data =
     \<lparr>date = strftime_b_d proposed_dt, event = eventName event_data,
      level = criticality event_data\<rparr>"

definition window_ok :: "env \<Rightarrow> business_event \<Rightarrow> bool" where
  "window_ok e event_data = (case event_window e event_data of Inl err \<Rightarrow> False | Inr w \<Rightarrow> True)"

definition outside_window :: "env \<Rightarrow> datetime \<Rightarrow> business_event \<Rightarrow> bool" where
  "outside_window e proposed_dt event_data =
     (case event_window e event_data of
        Inl err \<Rightarrow> False
      | Inr (event_start_dt, event_end_dt) \<Rightarrow>
          \<not> (dt_le event_start_dt proposed_dt \<and> dt_le proposed_dt event_end_dt))"

text \<open>
  The date a \<open>%b %d\<close> label of a day parses to, and the order of two days by month and
  day, which is the order of their labels in the sorted timeline.
\<close>

definition in_1900 :: "datetime \<Rightarrow> datetime" where
  "in_1900 dt = \<lparr>year = 1900, month = month dt, day = day dt, hour = 0, minute = 0,
                  second = 0, microsecond = 0\<rparr>"

definition ok1900 :: "datetime \<Rightarrow> bool" where
  "ok1900 x = (1 \<le> month x \<and> month x \<le> 12 \<and> 1 \<le> day x \<and> day x \<le> days_in_month 1900 (month x))"

definition md_lt :: "datetime \<Rightarrow> datetime \<Rightarrow> bool" where
  "md_lt x y = (month x < month y \<or> month x = month y \<and> day x < day y)"

text \<open>
  The aggregation as the specification writes it: the weighted sum with the priority
  adjustment, the normalization clamped to 1..10, the inverted score rounded to one
  decimal, and the three levels.
\<close>

definition clamp :: "real \<Rightarrow> real \<Rightarrow> real \<Rightarrow> real" where
  "clamp x lo hi = max lo (min hi x)"

definition spec_raw :: "float_ops \<Rightarrow> real \<Rightarrow> nat \<Rightarrow> nat \<Rightarrow> string \<Rightarrow> real" where
  "spec_raw fp t d b p =
     (let raw = fadd fp (fadd fp (fmul fp (rnd fp (4 / 10)) t) (fmul fp (rnd fp (3 / 10)) (real d)))
                        (fmul fp (rnd fp (3 / 10)) (real b))
      in if p = ''High'' then fadd fp raw (3 / 2)
         else if p = ''Critical'' then fadd fp raw 3 else raw)"

definition spec_aggregate :: "float_ops \<Rightarrow> real \<Rightarrow> nat \<Rightarrow> nat \<Rightarrow> string \<Rightarrow> risk_score" where
  "spec_aggregate fp t d b p =
     (let normalized = clamp (fmul fp (fdiv fp (spec_raw fp t d b p) 15) 10) 1 10;
          safety = round1 fp (clamp (fadd fp (fsub fp 10 normalized) 1) 1 10)
      in \<lparr> normalized_risk = normalized, credit_score = safety,
           risk_level = (if safety \<le> 7 / 2 then ''HIGH''
                         else if safety \<le> 7 then ''MEDIUM'' else ''LOW'') \<rparr>)"

section \<open>Example data\<close>

text \<open>
  A scoring function for the examples: 100 for a choice identical to the query, 0 for
  any other.  On the names used below thefuzz makes the same choices: it gives identical
  strings 100, gives \<open>authservice\<close> less than 100 for the query \<open>auth-service\<close>, and
  gives the other pairs of names less than the cutoff 85.
\<close>

definition exact_scorer :: "string \<Rightarrow> string \<Rightarrow> real" where
  "exact_scorer q c = (if q = c then 100 else 0)"

text \<open>
  The names that occur in the data: every forward-edge target of the graph and every
  service name of the service list.
\<close>

definition mentioned_names :: "env \<Rightarrow> string set" where
  "mentioned_names e =
     set (concat (map snd (dep_graph e)) @ map serviceName (serviceDependencies e))"

text \<open>
  The dataset of the example scenario: \<open>auth-service\<close> depends on \<open>user-database\<close>, and
  the entry of \<open>user-database\<close> lists \<open>billing-service\<close> under \<open>consumedBy\<close>.  The graph
  is the one \<open>startup_event\<close> builds from the service list.
\<close>

definition c1_services :: "service_info list" where
  "c1_services =
     [\<lparr>serviceName = ''auth-service'', directDependencies = [''user-database''], consumedBy = []\<rparr>,
      \<lparr>serviceName = ''user-database'', directDependencies = [], consumedBy = [''billing-service'']\<rparr>]"

definition c1_env :: "(string \<Rightarrow> string \<Rightarrow> real) \<Rightarrow> env" where
  "c1_env sc = \<lparr> serviceDependencies = c1_services, businessEvents = [],
                 dep_graph = build_graph c1_services, aliases = SERVICE_ALIASES,
                 scorer = sc, fromisoformat = (\<lambda>s. None) \<rparr>"

text \<open>A service whose forward edges name two services that have no entry of their own.\<close>

definition dangling_env :: env where
  "dangling_env = \<lparr> serviceDependencies =
        [\<lparr>serviceName = ''checkout-ui'', directDependencies = [''payment-api'', ''auth-service''],
          consumedBy = []\<rparr>],
      businessEvents = [],
      dep_graph = build_graph
        [\<lparr>serviceName = ''checkout-ui'', directDependencies = [''payment-api'', ''auth-service''],
          consumedBy = []\<rparr>],
      aliases = SERVICE_ALIASES,
      scorer = exact_scorer,
      fromisoformat = (\<lambda>s. None) \<rparr>"

text \<open>A directory in which a key of the alias table is itself a canonical name.\<close>

definition alias_env :: env where
  "alias_env = \<lparr> serviceDependencies =
        [\<lparr>serviceName = ''authservice'', directDependencies = [], consumedBy = []\<rparr>,
         \<lparr>serviceName = ''auth-service'', directDependencies = [], consumedBy = []\<rparr>],
      businessEvents = [],
      dep_graph = build_graph
        [\<lparr>serviceName = ''authservice'', directDependencies = [], consumedBy = []\<rparr>,
         \<lparr>serviceName = ''auth-service'', directDependencies = [], consumedBy = []\<rparr>],
      aliases = SERVICE_ALIASES,
      scorer = exact_scorer,
      fromisoformat = (\<lambda>s. None) \<rparr>"

text \<open>
  A directory with two canonical names that differ in case only, and a scoring function
  that, like the matcher's default processor, compares without regard to case.
\<close>

definition caseless_scorer :: "string \<Rightarrow> string \<Rightarrow> real" where
  "caseless_scorer q c = (if lower q = lower c then 100 else 0)"

definition caseless_env :: env where
  "caseless_env = \<lparr> serviceDependencies =
        [\<lparr>serviceName = ''Auth-Service'', directDependencies = [], consumedBy = []\<rparr>,
         \<lparr>serviceName = ''auth-service'', directDependencies = [], consumedBy = []\<rparr>],
      businessEvents = [],
      dep_graph = build_graph
        [\<lparr>serviceName = ''Auth-Service'', directDependencies = [], consumedBy = []\<rparr>,
         \<lparr>serviceName = ''auth-service'', directDependencies = [], consumedBy = []\<rparr>],
      aliases = SERVICE_ALIASES,
      scorer = caseless_scorer,
      fromisoformat = (\<lambda>s. None) \<rparr>"

text \<open>
  A parser for the examples: it accepts \<open>YYYY-MM-DD\<close> and \<open>YYYY-MM-DDTHH:MM:SS\<close> with a
  valid date and time, on which it agrees with \<open>datetime.fromisoformat\<close>, and rejects
  every other string.
\<close>

fun digits_val :: "string \<Rightarrow> nat option" where
  "digits_val [] = None"
| "digits_val [c] = digit_of c"
| "digits_val (c # cs) =
     (case (digit_of c, digits_val cs) of
        (Some d, Some v) \<Rightarrow> Some (d * 10 ^ length cs + v)
      | _ \<Rightarrow> None)"

definition iso_parse :: "string \<Rightarrow> datetime option" where
  "iso_parse s =
     (if (length s = 10 \<or> length s = 19) \<and> s ! 4 = CHR ''-'' \<and> s ! 7 = CHR ''-''
      then (case (digits_val (take 4 s), digits_val (take 2 (drop 5 s)),
                  digits_val (take 2 (drop 8 s))) of
              (Some y, Some m, Some d) \<Rightarrow>
                (if length s = 10
                 then (let dt = \<lparr>year = y, month = m, day = d, hour = 0, minute = 0, second = 0,
                                  microsecond = 0\<rparr>
                       in if valid_datetime dt then Some dt else None)
                 else (case (digits_val (take 2 (drop 11 s)), digits_val (take 2 (drop 14 s)),
                             digits_val (take 2 (drop 17 s))) of
                         (Some h, Some mi, Some se) \<Rightarrow>
                           (let dt = \<lparr>year = y, month = m, day = d, hour = h, minute = mi,
                                       second = se, microsecond = 0\<rparr>
                            in if s ! 10 = CHR ''T'' \<and> s ! 13 = CHR '':'' \<and> s ! 16 = CHR '':''
                                  \<and> valid_datetime dt then Some dt else None)
                       | _ \<Rightarrow> None))
            | _ \<Rightarrow> None)
      else None)"

text \<open>A calendar with the given events and an empty service directory.\<close>

definition cal_env :: "business_event list \<Rightarrow> env" where
  "cal_env evs = \<lparr> serviceDependencies = [], businessEvents = evs, dep_graph = [],
                   aliases = SERVICE_ALIASES, scorer = exact_scorer, fromisoformat = iso_parse \<rparr>"

text \<open>A Critical blackout event for all systems, covering January 2024.\<close>

definition freeze_event :: business_event where
  "freeze_event = \<lparr> eventName = ''Year-End Change Freeze'', startDate = ''2024-01-01'',
        endDate = ''2024-01-31'', impactedSystems = [''all-systems''], criticality = ''Critical'',
        blackoutWindow = True \<rparr>"


text \<open>A one-day event on 1 January 2024.\<close>

definition holiday_event :: business_event where
  "holiday_event = \<lparr> eventName = ''New Year Freeze'', startDate = ''2024-01-01'',
        endDate = ''2024-01-01'', impactedSystems = [''all-systems''], criticality = ''High'',
        blackoutWindow = True \<rparr>"

text \<open>A Medium event for all systems, covering January 2024.\<close>

definition review_event :: business_event where
  "review_event = \<lparr> eventName = ''Quarterly Review'', startDate = ''2024-01-01'',
        endDate = ''2024-01-31'', impactedSystems = [''all-systems''], criticality = ''Medium'',
        blackoutWindow = False \<rparr>"

text \<open>Two High events on the same days, the name of one a substring of the other's.\<close>

definition peak_events :: "business_event list" where
  "peak_events =
     [\<lparr> eventName = ''Peak Hours'', startDate = ''2024-01-01'', endDate = ''2024-01-31'',
         impactedSystems = [''all-systems''], criticality = ''High'', blackoutWindow = False \<rparr>,
      \<lparr> eventName = ''Peak'', startDate = ''2024-01-01'', endDate = ''2024-01-31'',
         impactedSystems = [''all-systems''], criticality = ''High'', blackoutWindow = False \<rparr>]"

text \<open>Wednesday 10 January 2024, 10:00, and Saturday 13 January 2024, 20:00.\<close>

definition wed_10 :: datetime where
  "wed_10 = \<lparr>year = 2024, month = 1, day = 10, hour = 10, minute = 0, second = 0, microsecond = 0\<rparr>"

definition sat_20 :: datetime where
  "sat_20 = \<lparr>year = 2024, month = 1, day = 13, hour = 20, minute = 0, second = 0, microsecond = 0\<rparr>"

text \<open>
  Exact arithmetic as an instance of the float operations: no rounding, and rounding to
  one decimal with ties to the even digit.
\<close>

definition exact_round1 :: "real \<Rightarrow> real" where
  "exact_round1 x =
     (let f = \<lfloor>10 * x\<rfloor>; r = 10 * x - of_int f
      in if r < 1 / 2 then of_int f / 10
         else if 1 / 2 < r then of_int (f + 1) / 10
         else if even f then of_int f / 10 else of_int (f + 1) / 10)"

definition exact_ops :: float_ops where
  "exact_ops = \<lparr> rnd = (\<lambda>x. x), round1 = exact_round1 \<rparr>"

section \<open>Properties of normalization\<close>

definition aliased :: "env \<Rightarrow> string \<Rightarrow> string" where
  "aliased e name = (case map_of (aliases e) (strip (lower name)) of Some a \<Rightarrow> a | None \<Rightarrow> name)"

lemma extractOne_Some:
  "extractOne sc q cs cutoff = Some (b, s) \<Longrightarrow> b \<in> set cs \<and> s = sc q b \<and> cutoff \<le> s"
  by (induction cs arbitrary: b s) (auto split: if_splits option.splits)

lemma extractOne_unique_best:
  "n \<in> set cs \<Longrightarrow> cutoff \<le> sc q n \<Longrightarrow> list_all (\<lambda>k. k = n \<or> sc q k < sc q n) cs
   \<Longrightarrow> extractOne sc q cs cutoff = Some (n, sc q n)"
proof (induction cs)
  case Nil
  then show ?case by simp
next
  case (Cons c cs)
  show ?case
  proof (cases "n \<in> set cs")
    case True
    with Cons have IH: "extractOne sc q cs cutoff = Some (n, sc q n)" by simp
    from Cons.prems have "c = n \<or> sc q c < sc q n" by simp
    then show ?thesis using IH Cons.prems(2) by auto
  next
    case False
    with Cons.prems have cn: "c = n" by simp
    have "\<And>b s. extractOne sc q cs cutoff = Some (b, s) \<Longrightarrow> s < sc q n"
    proof -
      fix b s assume a: "extractOne sc q cs cutoff = Some (b, s)"
      then have "b \<in> set cs" "s = sc q b" using extractOne_Some by blast+
      moreover have "b \<noteq> n" using False \<open>b \<in> set cs\<close> by auto
      ultimately show "s < sc q n" using Cons.prems(3) by (auto simp: list_all_iff)
    qed
    then show ?thesis using cn Cons.prems(2) by (auto split: option.splits)
  qed
qed

lemma normalize_cases:
  "normalize_service_name e x \<in> set (map fst (dep_graph e)) \<or> normalize_service_name e x = aliased e x
    \<or> x = []"
  using extractOne_Some
  by (fastforce simp: normalize_service_name_def aliased_def Let_def split: option.splits prod.splits)

lemma strip_lower_auth: "strip (lower ''auth-service'') = ''auth-service''"
  by (simp add: strip_def lower_def lower_char_def upper_chars_def lower_chars_def is_space_def)

lemma strip_lower_userdb: "strip (lower ''user-database'') = ''user-database''"
  by (simp add: strip_def lower_def lower_char_def upper_chars_def lower_chars_def is_space_def)

lemma normalize_fixed:
  assumes "n \<in> set (map fst (dep_graph e))"
    and "map_of (aliases e) (strip (lower n)) = None \<or> map_of (aliases e) (strip (lower n)) = Some n"
    and "85 \<le> scorer e n n"
    and "list_all (\<lambda>k. k = n \<or> scorer e n k < scorer e n n) (map fst (dep_graph e))"
  shows "normalize_service_name e n = n"
proof -
  have al: "(case map_of (aliases e) (strip (lower n)) of Some a \<Rightarrow> a | None \<Rightarrow> n) = n"
    using assms(2) by auto
  have "extractOne (scorer e) n (map fst (dep_graph e)) 85 = Some (n, scorer e n n)"
    using assms(1,3,4) by (rule extractOne_unique_best)
  then show ?thesis
    by (simp add: normalize_service_name_def al)
qed

lemma alias_env_sel:
  "dep_graph alias_env = [(''authservice'', []), (''auth-service'', [])]"
  "scorer alias_env = exact_scorer" "aliases alias_env = SERVICE_ALIASES"
  by (simp_all add: alias_env_def build_graph_def)

lemma extractOne_None:
  "list_all (\<lambda>k. sc q k < cutoff) cs \<Longrightarrow> extractOne sc q cs cutoff = None"
  by (induction cs) simp_all

lemma extractOne_first_best:
  "n \<in> set cs \<Longrightarrow> cutoff \<le> sc q n \<Longrightarrow> list_all (\<lambda>k. sc q k \<le> sc q n) cs
   \<Longrightarrow> list_all (\<lambda>k. sc q k < sc q n) (takeWhile (\<lambda>k. k \<noteq> n) cs)
   \<Longrightarrow> extractOne sc q cs cutoff = Some (n, sc q n)"
proof (induction cs)
  case Nil
  then show ?case by simp
next
  case (Cons c cs)
  show ?case
  proof (cases "c = n")
    case True
    have "\<And>b s. extractOne sc q cs cutoff = Some (b, s) \<Longrightarrow> s \<le> sc q n"
    proof -
      fix b s assume a: "extractOne sc q cs cutoff = Some (b, s)"
      then have "b \<in> set cs" "s = sc q b" using extractOne_Some by blast+
      then show "s \<le> sc q n" using Cons.prems(3) by (auto simp: list_all_iff)
    qed
    then show ?thesis using True Cons.prems(2) by (auto split: option.splits)
  next
    case False
    with Cons.prems have "n \<in> set cs" "sc q c < sc q n"
      "list_all (\<lambda>k. sc q k \<le> sc q n) cs"
      "list_all (\<lambda>k. sc q k < sc q n) (takeWhile (\<lambda>k. k \<noteq> n) cs)"
      by auto
    with Cons.IH Cons.prems(2) have IH: "extractOne sc q cs cutoff = Some (n, sc q n)" by simp
    then show ?thesis using \<open>sc q c < sc q n\<close> by simp
  qed
qed

lemma caseless_env_sel:
  "dep_graph caseless_env = [(''Auth-Service'', []), (''auth-service'', [])]"
  "scorer caseless_env = caseless_scorer" "aliases caseless_env = SERVICE_ALIASES"
  by (simp_all add: caseless_env_def build_graph_def)

text \<open>
  C9, as stated, fails.  \<open>authservice\<close> is a key of the alias table, so when it is also a
  canonical name it is first replaced by \<open>auth-service\<close>, which then matches itself.
  And when an earlier canonical name scores as high as the name itself (here two names
  that differ in case only, which the matcher's processor makes equal), the earlier one
  is returned.
\<close>

theorem normalize_canonical_counterexample:
  "''authservice'' \<in> set (map fst (dep_graph alias_env))
   \<and> normalize_service_name alias_env ''authservice'' = ''auth-service''
   \<and> ''auth-service'' \<in> set (map fst (dep_graph caseless_env))
   \<and> normalize_service_name caseless_env ''auth-service'' = ''Auth-Service''"
  by (simp add: normalize_service_name_def alias_env_sel caseless_env_sel SERVICE_ALIASES_def
        exact_scorer_def caseless_scorer_def
        strip_def lower_def lower_char_def upper_chars_def lower_chars_def is_space_def)

text \<open>
  C9 (amended): normalizing a canonical name returns it unchanged when the alias table
  does not send its lower-cased, stripped form to another name, every canonical name
  scores, against it, below the cutoff 85 or at most the name's own score, and every
  canonical name that comes before it in the graph scores below the cutoff or strictly
  below the name's own score.
\<close>

theorem normalize_canonical:
  assumes "n \<in> set (map fst (dep_graph e))"
    and "map_of (aliases e) (strip (lower n)) = None \<or> map_of (aliases e) (strip (lower n)) = Some n"
    and "list_all (\<lambda>k. scorer e n k < 85 \<or> scorer e n k \<le> scorer e n n)
           (map fst (dep_graph e))"
    and "list_all (\<lambda>k. scorer e n k < 85 \<or> scorer e n k < scorer e n n)
           (takeWhile (\<lambda>k. k \<noteq> n) (map fst (dep_graph e)))"
  shows "normalize_service_name e n = n"
proof -
  have al: "(case map_of (aliases e) (strip (lower n)) of Some a \<Rightarrow> a | None \<Rightarrow> n) = n"
    using assms(2) by auto
  show ?thesis
  proof (cases "85 \<le> scorer e n n")
    case True
    have a: "list_all (\<lambda>k. scorer e n k \<le> scorer e n n) (map fst (dep_graph e))"
      using assms(3) True unfolding list_all_iff by auto
    have b: "list_all (\<lambda>k. scorer e n k < scorer e n n)
               (takeWhile (\<lambda>k. k \<noteq> n) (map fst (dep_graph e)))"
      using assms(4) True unfolding list_all_iff by auto
    have "extractOne (scorer e) n (map fst (dep_graph e)) 85 = Some (n, scorer e n n)"
      using assms(1) True a b by (rule extractOne_first_best)
    then show ?thesis by (simp add: normalize_service_name_def al)
  next
    case False
    have "list_all (\<lambda>k. scorer e n k < 85) (map fst (dep_graph e))"
      using assms(3) False unfolding list_all_iff by auto
    then have none: "extractOne (scorer e) n (map fst (dep_graph e)) 85 = None"
      by (rule extractOne_None)
    show ?thesis by (simp add: normalize_service_name_def al none)
  qed
qed

theorem normalize_canonical_witness:
  "''auth-service'' \<in> set (map fst (dep_graph alias_env))
   \<and> map_of (aliases alias_env) (strip (lower ''auth-service'')) = None
   \<and> list_all (\<lambda>k. scorer alias_env ''auth-service'' k < 85
          \<or> scorer alias_env ''auth-service'' k \<le> scorer alias_env ''auth-service'' ''auth-service'')
        (map fst (dep_graph alias_env))
   \<and> list_all (\<lambda>k. scorer alias_env ''auth-service'' k < 85
          \<or> scorer alias_env ''auth-service'' k < scorer alias_env ''auth-service'' ''auth-service'')
        (takeWhile (\<lambda>k. k \<noteq> ''auth-service'') (map fst (dep_graph alias_env)))
   \<and> normalize_service_name alias_env ''auth-service'' = ''auth-service''"
proof -
  have h1: "''auth-service'' \<in> set (map fst (dep_graph alias_env))"
    by (simp add: alias_env_sel)
  have h2: "map_of (aliases alias_env) (strip (lower ''auth-service'')) = None"
    by (simp add: alias_env_sel SERVICE_ALIASES_def strip_lower_auth)
  have h3: "list_all (\<lambda>k. scorer alias_env ''auth-service'' k < 85
          \<or> scorer alias_env ''auth-service'' k \<le> scorer alias_env ''auth-service'' ''auth-service'')
        (map fst (dep_graph alias_env))"
    by (simp add: alias_env_sel exact_scorer_def)
  have h4: "list_all (\<lambda>k. scorer alias_env ''auth-service'' k < 85
          \<or> scorer alias_env ''auth-service'' k < scorer alias_env ''auth-service'' ''auth-service'')
        (takeWhile (\<lambda>k. k \<noteq> ''auth-service'') (map fst (dep_graph alias_env)))"
    by (simp add: alias_env_sel exact_scorer_def)
  from h2 have h2': "map_of (aliases alias_env) (strip (lower ''auth-service'')) = None
      \<or> map_of (aliases alias_env) (strip (lower ''auth-service'')) = Some ''auth-service''" by simp
  show ?thesis using h1 h2 h3 h4 normalize_canonical[OF h1 h2' h3 h4] by simp
qed

section \<open>Properties of the dependency-impact analysis\<close>

lemma scan_consumers_subset:
  "set (scan_consumers e tg ns sis imp)
     \<subseteq> set imp \<union> normalize_service_name e ` serviceName ` set sis"
proof (induction sis arbitrary: imp)
  case Nil
  then show ?case by simp
next
  case (Cons si sis)
  show ?case
    using Cons.IH[of "normalize_service_name e (serviceName si) # imp"] Cons.IH[of imp]
    by (auto simp: Let_def)
qed

lemma scan_consumers_distinct:
  "distinct imp \<Longrightarrow> distinct (scan_consumers e tg ns sis imp)"
  by (induction sis arbitrary: imp) (auto simp: Let_def)

lemma find_downstream_subset:
  "set (find_downstream e tg s imp) \<subseteq> set imp \<union> normalize_service_name e ` mentioned_names e"
  "set (visit_deps e tg ds imp)
     \<subseteq> set imp \<union> normalize_service_name e ` mentioned_names e \<union> normalize_service_name e ` set ds"
proof (induction e tg s imp and e tg ds imp rule: find_downstream_visit_deps.induct)
  case (1 e tg system_name imp)
  show ?case
  proof (cases "map_of (dep_graph e) (normalize_service_name e system_name)")
    case None
    then show ?thesis by simp
  next
    case (Some deps)
    have d: "set deps \<subseteq> mentioned_names e"
      using map_of_SomeD[OF Some] by (force simp: mentioned_names_def)
    have s: "serviceName ` set (serviceDependencies e) \<subseteq> mentioned_names e"
      by (auto simp: mentioned_names_def)
    have "set (visit_deps e tg deps imp)
       \<subseteq> set imp \<union> normalize_service_name e ` mentioned_names e \<union> normalize_service_name e ` set deps"
      using "1.IH" Some by simp
    then have v: "set (visit_deps e tg deps imp) \<subseteq> set imp \<union> normalize_service_name e ` mentioned_names e"
      using d by blast
    have "set (find_downstream e tg system_name imp)
       \<subseteq> set (visit_deps e tg deps imp)
          \<union> normalize_service_name e ` serviceName ` set (serviceDependencies e)"
      using Some scan_consumers_subset by simp
    then show ?thesis using v s by blast
  qed
next
  case (2 e tg imp)
  then show ?case by simp
next
  case (3 e tg dep deps imp)
  show ?case
  proof (cases "normalize_service_name e dep \<notin> set imp \<and> normalize_service_name e dep \<notin> set tg")
    case True
    let ?x = "normalize_service_name e dep"
    have a: "set (find_downstream e tg ?x (?x # imp))
        \<subseteq> set (?x # imp) \<union> normalize_service_name e ` mentioned_names e"
      using "3.IH"(1) True by simp
    have b: "set (visit_deps e tg deps (find_downstream e tg ?x (?x # imp)))
        \<subseteq> set (find_downstream e tg ?x (?x # imp)) \<union> normalize_service_name e ` mentioned_names e
           \<union> normalize_service_name e ` set deps"
      using "3.IH"(2) True by simp
    have "visit_deps e tg (dep # deps) imp = visit_deps e tg deps (find_downstream e tg ?x (?x # imp))"
      using True by (simp add: Let_def)
    then show ?thesis using a b by auto
  next
    case False
    have b: "set (visit_deps e tg deps imp)
        \<subseteq> set imp \<union> normalize_service_name e ` mentioned_names e
           \<union> normalize_service_name e ` set deps"
      using "3.IH"(3) False by simp
    have "visit_deps e tg (dep # deps) imp = visit_deps e tg deps imp"
      using False by (auto simp: Let_def)
    then show ?thesis using b by auto
  qed
qed

lemma find_downstream_distinct:
  "distinct imp \<Longrightarrow> distinct (find_downstream e tg s imp)"
  "distinct imp \<Longrightarrow> distinct (visit_deps e tg ds imp)"
proof (induction e tg s imp and e tg ds imp rule: find_downstream_visit_deps.induct)
  case (1 e tg system_name imp)
  then show ?case
    by (auto simp: Let_def scan_consumers_distinct split: option.splits)
next
  case (2 e tg imp)
  then show ?case by simp
next
  case (3 e tg dep deps imp)
  show ?case
  proof (cases "normalize_service_name e dep \<notin> set imp \<and> normalize_service_name e dep \<notin> set tg")
    case True
    let ?x = "normalize_service_name e dep"
    have "distinct (?x # imp)" using True "3.prems" by simp
    then have "distinct (find_downstream e tg ?x (?x # imp))" using "3.IH"(1) True by simp
    then have "distinct (visit_deps e tg deps (find_downstream e tg ?x (?x # imp)))"
      using "3.IH"(2) True by simp
    then show ?thesis using True by (simp add: Let_def)
  next
    case False
    then have "distinct (visit_deps e tg deps imp)" using "3.IH"(3) "3.prems" by simp
    then show ?thesis using False by (auto simp: Let_def)
  qed
qed

lemma foldl_find_downstream_inv:
  "distinct imp \<Longrightarrow> set imp \<subseteq> normalize_service_name e ` mentioned_names e \<Longrightarrow>
   distinct (foldl (\<lambda>imp system. find_downstream e tg system imp) imp nts)
   \<and> set (foldl (\<lambda>imp system. find_downstream e tg system imp) imp nts)
        \<subseteq> normalize_service_name e ` mentioned_names e"
proof (induction nts arbitrary: imp)
  case Nil
  then show ?case by simp
next
  case (Cons t nts)
  have "distinct (find_downstream e tg t imp)"
    using Cons.prems(1) by (rule find_downstream_distinct(1))
  moreover have "set (find_downstream e tg t imp) \<subseteq> normalize_service_name e ` mentioned_names e"
    using find_downstream_subset(1)[of e tg t imp] Cons.prems(2) by blast
  ultimately show ?case using Cons.IH by simp
qed

lemma impacted_subset:
  "set (impacted_dependencies (analyze_service_dependencies e ts))
     \<subseteq> normalize_service_name e ` mentioned_names e"
proof -
  define nts where "nts = map (normalize_service_name e) (filter (\<lambda>s. s \<noteq> []) ts)"
  have "set (foldl (\<lambda>imp system. find_downstream e (remdups nts) system imp) [] nts)
          \<subseteq> normalize_service_name e ` mentioned_names e"
    using foldl_find_downstream_inv[of "[]" e "remdups nts" nts] by simp
  then show ?thesis
    by (auto simp: analyze_service_dependencies_def Let_def nts_def)
qed

lemma c1_graph: "build_graph c1_services = [(''auth-service'', [''user-database'']), (''user-database'', [])]"
  by (simp add: build_graph_def c1_services_def)

lemma c1_norm_auth:
  assumes "85 \<le> sc ''auth-service'' ''auth-service''"
    and "sc ''auth-service'' ''user-database'' < sc ''auth-service'' ''auth-service''"
  shows "normalize_service_name (c1_env sc) ''auth-service'' = ''auth-service''"
  by (rule normalize_fixed)
     (use assms in \<open>simp_all add: c1_env_def c1_graph SERVICE_ALIASES_def strip_lower_auth\<close>)

lemma c1_norm_userdb:
  assumes "85 \<le> sc ''user-database'' ''user-database''"
    and "sc ''user-database'' ''auth-service'' < sc ''user-database'' ''user-database''"
  shows "normalize_service_name (c1_env sc) ''user-database'' = ''user-database''"
  by (rule normalize_fixed)
     (use assms in \<open>simp_all add: c1_env_def c1_graph SERVICE_ALIASES_def strip_lower_userdb\<close>)

lemma c1_env_sel:
  "dep_graph (c1_env sc) = [(''auth-service'', [''user-database'']), (''user-database'', [])]"
  "serviceDependencies (c1_env sc) = c1_services"
  by (simp_all add: c1_env_def c1_graph)

lemma c1_mentioned: "mentioned_names (c1_env sc) = {''user-database'', ''auth-service''}"
  by (auto simp: mentioned_names_def c1_env_sel c1_services_def)

lemma c1_aliased:
  "aliased (c1_env sc) ''user-database'' = ''user-database''"
  "aliased (c1_env sc) ''auth-service'' = ''auth-service''"
  by (simp_all add: aliased_def c1_env_def SERVICE_ALIASES_def strip_lower_auth strip_lower_userdb)

text \<open>
  C1, as stated, fails.  The reverse lookup adds the service whose own \<open>consumedBy\<close>
  list contains the current node; \<open>billing-service\<close> is only listed inside the entry of
  \<open>user-database\<close> and is never the current node, so it is never added, whatever the
  scoring function returns.
\<close>

theorem c1_counterexample:
  "\<forall>sc. impacted_dependencies (analyze_service_dependencies (c1_env sc) [''auth-service''])
           \<noteq> [''billing-service'', ''user-database'']"
proof
  fix sc
  let ?r = "impacted_dependencies (analyze_service_dependencies (c1_env sc) [''auth-service''])"
  have "normalize_service_name (c1_env sc) x \<noteq> ''billing-service''"
    if "x \<in> mentioned_names (c1_env sc)" for x
  proof -
    from that have x: "x = ''user-database'' \<or> x = ''auth-service''"
      unfolding c1_mentioned by simp
    then have al: "aliased (c1_env sc) x = x"
      using c1_aliased[of sc] by auto
    have "normalize_service_name (c1_env sc) x \<in> {''auth-service'', ''user-database''}
          \<or> normalize_service_name (c1_env sc) x = x"
      using normalize_cases[of "c1_env sc" x] x al by (auto simp: c1_env_sel)
    then show ?thesis using x by auto
  qed
  then have ne: "\<And>x. x \<in> mentioned_names (c1_env sc) \<Longrightarrow>
      normalize_service_name (c1_env sc) x \<noteq> ''billing-service''" .
  have nb: "''billing-service'' \<notin> normalize_service_name (c1_env sc) ` mentioned_names (c1_env sc)"
  proof
    assume "''billing-service'' \<in> normalize_service_name (c1_env sc) ` mentioned_names (c1_env sc)"
    then obtain x where x: "x \<in> mentioned_names (c1_env sc)"
      and eq: "''billing-service'' = normalize_service_name (c1_env sc) x"
      by (rule imageE)
    from eq have "normalize_service_name (c1_env sc) x = ''billing-service''" by (rule sym)
    with ne[OF x] show False by (rule notE)
  qed
  have sub: "set ?r \<subseteq> normalize_service_name (c1_env sc) ` mentioned_names (c1_env sc)"
    by (rule impacted_subset)
  show "?r \<noteq> [''billing-service'', ''user-database'']"
  proof
    assume "?r = [''billing-service'', ''user-database'']"
    then have "''billing-service'' \<in> set ?r" by simp
    then have "''billing-service'' \<in> normalize_service_name (c1_env sc) ` mentioned_names (c1_env sc)"
      by (rule subsetD[OF sub])
    with nb show False by (rule notE)
  qed
qed

text \<open>
  C1 (amended): on that dataset the analysis of \<open>[auth-service]\<close> returns the impacted
  list \<open>[user-database]\<close> and the count 1, for every scoring function that gives each of
  the two canonical names at least 85 against itself and strictly less against the
  other.
\<close>

theorem c1_result:
  assumes "85 \<le> sc ''auth-service'' ''auth-service''"
    and "sc ''auth-service'' ''user-database'' < sc ''auth-service'' ''auth-service''"
    and "85 \<le> sc ''user-database'' ''user-database''"
    and "sc ''user-database'' ''auth-service'' < sc ''user-database'' ''user-database''"
  shows "impacted_dependencies (analyze_service_dependencies (c1_env sc) [''auth-service''])
           = [''user-database'']
       \<and> length (impacted_dependencies (analyze_service_dependencies (c1_env sc) [''auth-service''])) = 1"
proof -
  have na: "normalize_service_name (c1_env sc) ''auth-service'' = ''auth-service''"
    using assms(1,2) by (rule c1_norm_auth)
  have nu: "normalize_service_name (c1_env sc) ''user-database'' = ''user-database''"
    using assms(3,4) by (rule c1_norm_userdb)
  have fd_u: "find_downstream (c1_env sc) [''auth-service''] ''user-database'' [''user-database'']
                = [''user-database'']"
    by (simp add: nu c1_env_sel c1_services_def Let_def)
  have fd_a: "find_downstream (c1_env sc) [''auth-service''] ''auth-service'' [] = [''user-database'']"
    by (simp add: na nu c1_env_sel c1_services_def Let_def)
  show ?thesis
    by (simp add: analyze_service_dependencies_def na fd_a Let_def del: find_downstream.simps)
qed
theorem c1_result_witness:
  "impacted_dependencies (analyze_service_dependencies (c1_env exact_scorer) [''auth-service''])
     = [''user-database'']
   \<and> length (impacted_dependencies
        (analyze_service_dependencies (c1_env exact_scorer) [''auth-service''])) = 1"
  using c1_result[of exact_scorer] by (simp add: exact_scorer_def)

lemma dangling_sel:
  "dep_graph dangling_env = [(''checkout-ui'', [''payment-api'', ''auth-service''])]"
  "scorer dangling_env = exact_scorer" "aliases dangling_env = SERVICE_ALIASES"
  "serviceDependencies dangling_env = [\<lparr>serviceName = ''checkout-ui'', directDependencies = [''payment-api'', ''auth-service''],
          consumedBy = []\<rparr>]"
  by (simp_all add: dangling_env_def build_graph_def)

lemma dangling_norm:
  "normalize_service_name dangling_env ''checkout-ui'' = ''checkout-ui''"
  "normalize_service_name dangling_env ''payment-api'' = ''payment-api''"
  "normalize_service_name dangling_env ''auth-service'' = ''auth-service''"
  by (simp_all add: normalize_service_name_def dangling_sel SERVICE_ALIASES_def exact_scorer_def
        strip_def lower_def lower_char_def upper_chars_def lower_chars_def is_space_def)

lemma dangling_find_downstream: "find_downstream dangling_env [''checkout-ui''] ''checkout-ui'' [] = [''auth-service'', ''payment-api'']"
  by (simp add: dangling_norm dangling_sel Let_def)


text \<open>
  C7, as stated, fails in its bound: forward edges may name services that have no entry
  (the analysis guards the graph lookup for them), and each such name is impacted.  Here
  one service impacts two names.
\<close>

theorem dangling_counterexample:
  "impacted_dependencies (analyze_service_dependencies dangling_env [''checkout-ui''])
     = [''auth-service'', ''payment-api'']
   \<and> length (dep_graph dangling_env) = 1
   \<and> length (serviceDependencies dangling_env) = 1"
  by (simp add: analyze_service_dependencies_def dangling_find_downstream dangling_norm dangling_sel Let_def
        del: find_downstream.simps)

text \<open>
  C7 (amended): \<open>find_downstream\<close> is a total function (its termination proof is above:
  every recursive call is on a name just added to the impacted set), so the analysis
  returns for every graph, cyclic or not, and every list of targets.  The impacted list
  has no repetition and its length is at most the number of distinct names occurring as
  forward-edge targets or service names; when all of these are keys of the graph, it is
  at most the number of services.
\<close>

theorem impact_bounded:
  "distinct (impacted_dependencies (analyze_service_dependencies e ts))
   \<and> length (impacted_dependencies (analyze_service_dependencies e ts)) \<le> card (mentioned_names e)
   \<and> (mentioned_names e \<subseteq> set (map fst (dep_graph e)) \<longrightarrow>
        length (impacted_dependencies (analyze_service_dependencies e ts))
          \<le> card (set (map fst (dep_graph e))))"
proof -
  define nts where "nts = map (normalize_service_name e) (filter (\<lambda>s. s \<noteq> []) ts)"
  define imp where "imp = foldl (\<lambda>imp system. find_downstream e (remdups nts) system imp) [] nts"
  define res where "res = sort (filter (\<lambda>d. d \<notin> set (remdups nts)) imp)"
  have res: "impacted_dependencies (analyze_service_dependencies e ts) = res"
    by (simp add: analyze_service_dependencies_def Let_def res_def imp_def nts_def)
  have inv: "distinct imp \<and> set imp \<subseteq> normalize_service_name e ` mentioned_names e"
    unfolding imp_def by (rule foldl_find_downstream_inv) simp_all
  have d: "distinct res" using inv by (simp add: res_def)
  have fin: "finite (mentioned_names e)" by (simp add: mentioned_names_def)
  have "set res \<subseteq> normalize_service_name e ` mentioned_names e"
    using inv by (auto simp: res_def)
  then have "card (set res) \<le> card (normalize_service_name e ` mentioned_names e)"
    using fin by (simp add: card_mono)
  also have "\<dots> \<le> card (mentioned_names e)" using fin by (rule card_image_le)
  finally have c: "length res \<le> card (mentioned_names e)"
    using d by (simp add: distinct_card)
  have "mentioned_names e \<subseteq> set (map fst (dep_graph e)) \<Longrightarrow>
        length res \<le> card (set (map fst (dep_graph e)))"
  proof -
    assume "mentioned_names e \<subseteq> set (map fst (dep_graph e))"
    then have "card (mentioned_names e) \<le> card (set (map fst (dep_graph e)))"
      by (simp add: card_mono)
    then show ?thesis using c by simp
  qed
  then show ?thesis using d c res by simp
qed
theorem impact_bounded_witness:
  "mentioned_names (c1_env exact_scorer) \<subseteq> set (map fst (dep_graph (c1_env exact_scorer)))
   \<and> length (impacted_dependencies
         (analyze_service_dependencies (c1_env exact_scorer) [''auth-service'']))
       \<le> card (set (map fst (dep_graph (c1_env exact_scorer))))"
  using impact_bounded[of "c1_env exact_scorer" "[''auth-service'']"]
  by (simp add: c1_mentioned c1_env_sel)

section \<open>Properties of the business-impact evaluation\<close>

lemmas calendar_defs =
  is_leap_def days_in_month_def valid_datetime_def dt_key_def dt_le_def date_of_def
  next_day_def prev_day_def end_of_day_shift_def days_before_year_def days_before_month_def
  toordinal_def isoweekday_def month_abbrs_def strftime_b_d_def digit_of_def month_of_abbr_def
  strptime_b_d_def digit_char_def

lemmas impact_defs =
  event_window_def impact_match_def criticality_points_def is_weekday_business_hours_def
  business_hours_events_def peak_hours_step_def final_level_def timeline_display_def
  level_priority_def date_key_def merge_item_def sorted_timeline_def impact_events_def
  assess_business_impact_def

lemma iso_parse_examples:
  "iso_parse ''2024-01-01'' = Some \<lparr>year = 2024, month = 1, day = 1, hour = 0, minute = 0, second = 0, microsecond = 0\<rparr>"
  "iso_parse ''2024-01-31'' = Some \<lparr>year = 2024, month = 1, day = 31, hour = 0, minute = 0, second = 0, microsecond = 0\<rparr>"
  "iso_parse ''2024-01-10T10:00:00'' = Some \<lparr>year = 2024, month = 1, day = 10, hour = 10, minute = 0, second = 0, microsecond = 0\<rparr>"
  "iso_parse ''2024-01-10T17:30:00'' = Some \<lparr>year = 2024, month = 1, day = 10, hour = 17, minute = 30, second = 0, microsecond = 0\<rparr>"
  "iso_parse ''2024-01-13T20:00:00'' = Some \<lparr>year = 2024, month = 1, day = 13, hour = 20, minute = 0, second = 0, microsecond = 0\<rparr>"
  "iso_parse ''2023-01-01T20:00:00'' = Some \<lparr>year = 2023, month = 1, day = 1, hour = 20, minute = 0, second = 0, microsecond = 0\<rparr>"
  "iso_parse ''2024-02-29T20:00:00'' = Some \<lparr>year = 2024, month = 2, day = 29, hour = 20, minute = 0, second = 0, microsecond = 0\<rparr>"
  "iso_parse ''tomorrow'' = None"
  by (simp_all add: iso_parse_def digit_of_def valid_datetime_def days_in_month_def is_leap_def)

lemma cal_env_sel:
  "fromisoformat (cal_env evs) = iso_parse" "businessEvents (cal_env evs) = evs"
  "dep_graph (cal_env evs) = []" "aliases (cal_env evs) = SERVICE_ALIASES"
  by (simp_all add: cal_env_def)

lemmas eval_defs = impact_defs calendar_defs cal_env_sel iso_parse_examples upt_rec Let_def

subsection \<open>Malformed timestamps\<close>

text \<open>
  C8: when the proposed date/time string does not parse, the evaluation raises
  \<open>ValueError\<close> and returns no result, and the endpoint that calls it passes the error
  on.
\<close>

theorem malformed_timestamp_raises:
  assumes "fromisoformat e s = None"
  shows "assess_business_impact e s svcs = Inl ValueError
       \<and> reassess_business_impact e s svcs = Inl ValueError"
  using assms by (simp add: assess_business_impact_def reassess_business_impact_def)

theorem malformed_timestamp_raises_witness:
  "fromisoformat (cal_env [freeze_event]) ''tomorrow'' = None
   \<and> assess_business_impact (cal_env [freeze_event]) ''tomorrow'' [''auth-service'']
       = Inl ValueError
   \<and> reassess_business_impact (cal_env [freeze_event]) ''tomorrow'' [''auth-service'']
       = Inl ValueError"
proof -
  have h: "fromisoformat (cal_env [freeze_event]) ''tomorrow'' = None"
    by (simp add: cal_env_sel iso_parse_examples)
  show ?thesis
    using h malformed_timestamp_raises[OF h, of "[''auth-service'']"] by simp
qed

subsection \<open>Parsing the day labels back\<close>

lemma digit_roundtrip:
  assumes "k < 10"
  shows "digit_of (digit_char k) = Some k"
proof -
  have "k = 0 \<or> k = 1 \<or> k = 2 \<or> k = 3 \<or> k = 4 \<or> k = 5 \<or> k = 6 \<or> k = 7 \<or> k = 8 \<or> k = 9"
    using assms by arith
  then show ?thesis
    by (elim disjE) (simp_all add: digit_of_def digit_char_def)
qed

lemma month_roundtrip:
  assumes "1 \<le> m" "m \<le> 12"
  shows "month_of_abbr (month_abbrs ! (m - 1)) = Some m \<and> length (month_abbrs ! (m - 1)) = 3"
proof -
  have "m = 1 \<or> m = 2 \<or> m = 3 \<or> m = 4 \<or> m = 5 \<or> m = 6 \<or> m = 7 \<or> m = 8 \<or> m = 9
        \<or> m = 10 \<or> m = 11 \<or> m = 12"
    using assms by arith
  then show ?thesis
    by (elim disjE) (simp_all add: month_of_abbr_def month_abbrs_def)
qed

lemma strptime_strftime:
  assumes "1 \<le> month dt" "month dt \<le> 12" "1 \<le> day dt" "day dt \<le> days_in_month 1900 (month dt)"
  shows "strptime_b_d (strftime_b_d dt) = Inr (in_1900 dt)"
proof -
  let ?a = "month_abbrs ! (month dt - 1)"
  have ma: "month_of_abbr ?a = Some (month dt)" and la: "length ?a = 3"
    using month_roundtrip[OF assms(1,2)] by simp_all
  have "days_in_month 1900 (month dt) \<le> 31" by (simp add: days_in_month_def)
  then have d: "day dt < 100" using assms(4) by simp
  then have d1: "digit_of (digit_char (day dt div 10)) = Some (day dt div 10)"
    by (intro digit_roundtrip) simp
  have d2: "digit_of (digit_char (day dt mod 10)) = Some (day dt mod 10)"
    by (intro digit_roundtrip) simp
  let ?s = "strftime_b_d dt"
  have s: "?s = ?a @ [CHR '' '', digit_char (day dt div 10), digit_char (day dt mod 10)]"
    by (simp add: strftime_b_d_def)
  have "length ?s = 6" "?s ! 3 = CHR '' ''" "take 3 ?s = ?a"
       "?s ! 4 = digit_char (day dt div 10)" "?s ! 5 = digit_char (day dt mod 10)"
    using la by (simp_all add: s nth_append)
  then show ?thesis
    using ma d1 d2 assms(3,4) by (simp add: strptime_b_d_def in_1900_def)
qed

lemma not_leap_1900: "is_leap 1900 = False"
  by (simp add: is_leap_def)

lemma ok1900_valid:
  "valid_datetime pdt \<Longrightarrow> \<not> (month pdt = 2 \<and> day pdt = 29) \<Longrightarrow> ok1900 pdt"
  by (auto simp: valid_datetime_def ok1900_def days_in_month_def not_leap_1900 split: if_splits)

subsection \<open>The event loop\<close>

lemma scan_events_outside:
  "list_all (outside_window e pdt) evs \<Longrightarrow> scan_events e pdt nis evs acc = Inr acc"
proof (induction evs arbitrary: acc)
  case Nil
  then show ?case by simp
next
  case (Cons ev evs)
  obtain cur sc where acc: "acc = (cur, sc)" by (cases acc)
  from Cons.prems have o: "outside_window e pdt ev" and r: "list_all (outside_window e pdt) evs"
    by simp_all
  from o obtain st en where w: "event_window e ev = Inr (st, en)"
    and n: "\<not> (dt_le st pdt \<and> dt_le pdt en)"
    by (auto simp: outside_window_def split: sum.splits)
  show ?case using w n Cons.IH[OF r] by (auto simp: acc)
qed

lemma scan_events_result:
  "list_all (window_ok e) evs \<Longrightarrow>
   scan_events e pdt nis evs (cur, sc)
     = Inr (cur @ map (impact_entry pdt) (filter (event_applies e pdt nis) evs),
            sc + sum_list (map event_points (filter (event_applies e pdt nis) evs)))"
proof (induction evs arbitrary: cur sc)
  case Nil
  then show ?case by simp
next
  case (Cons ev evs)
  from Cons.prems have r: "list_all (window_ok e) evs" by simp
  from Cons.prems obtain st en where w: "event_window e ev = Inr (st, en)"
    by (auto simp: window_ok_def split: sum.splits)
  show ?case
  proof (cases "event_applies e pdt nis ev")
    case True
    then have c: "dt_le st pdt \<and> dt_le pdt en \<and> impact_match e nis ev"
      using w by (simp add: event_applies_def)
    show ?thesis
      using True c w Cons.IH[OF r]
      by (simp add: impact_entry_def event_points_def criticality_points_def)
  next
    case False
    then have c: "\<not> (dt_le st pdt \<and> dt_le pdt en \<and> impact_match e nis ev)"
      using w by (simp add: event_applies_def)
    show ?thesis
      using False c w Cons.IH[OF r] by auto
  qed
qed

lemma list_ex_impact_entries:
  "list_ex (\<lambda>it. event it \<in> S) (map (impact_entry pdt) evs) = list_ex (\<lambda>ev. eventName ev \<in> S) evs"
  by (induction evs) (simp_all add: impact_entry_def)

subsection \<open>Merging and sorting\<close>

lemma key_order:
  "md_lt x y \<Longrightarrow> dt_key (in_1900 x) \<le> dt_key (in_1900 y)
      \<and> \<not> dt_key (in_1900 y) \<le> dt_key (in_1900 x)
      \<and> date_of (in_1900 x) \<noteq> date_of (in_1900 y)"
  by (auto simp: md_lt_def dt_key_def in_1900_def date_of_def)

lemma md_lt_trans: "md_lt x y \<Longrightarrow> md_lt y z \<Longrightarrow> md_lt x z"
  by (auto simp: md_lt_def)

lemma md_lt_ne:
  "md_lt x y \<Longrightarrow> date_of (in_1900 x) \<noteq> date_of (in_1900 y)
     \<and> date_of (in_1900 y) \<noteq> date_of (in_1900 x)"
  by (auto simp: md_lt_def in_1900_def date_of_def)

lemma sort3:
  fixes f :: "'a \<Rightarrow> 'k::linorder"
  shows "f x \<le> f y \<Longrightarrow> f y \<le> f z \<Longrightarrow> sort_key f [x, y, z] = [x, y, z]"
    and "f y \<le> f z \<Longrightarrow> f z \<le> f x \<Longrightarrow> \<not> f x \<le> f y \<Longrightarrow> \<not> f x \<le> f z \<Longrightarrow> sort_key f [x, y, z] = [y, z, x]"
    and "f z \<le> f x \<Longrightarrow> f x \<le> f y \<Longrightarrow> \<not> f y \<le> f z \<Longrightarrow> \<not> f x \<le> f z \<Longrightarrow> sort_key f [x, y, z] = [z, x, y]"
  by auto

lemma merge_same_day:
  assumes "list_all (\<lambda>it. date_key pdt it = k) items"
  shows "\<exists>it'. merge_timeline pdt items [(k, it0)] = [(k, it')]
            \<and> (date it0 = D \<longrightarrow> list_all (\<lambda>it. date it = D) items \<longrightarrow> date it' = D)"
  using assms
proof (induction items arbitrary: it0)
  case Nil
  then show ?case by simp
next
  case (Cons it items)
  from Cons.prems have k: "date_key pdt it = k" and r: "list_all (\<lambda>it. date_key pdt it = k) items"
    by simp_all
  have "\<exists>it1. merge_item [(k, it0)] k it = [(k, it1)]
          \<and> (date it0 = D \<longrightarrow> date it = D \<longrightarrow> date it1 = D)"
    by (auto simp: merge_item_def)
  then obtain it1 where m: "merge_item [(k, it0)] k it = [(k, it1)]"
    and d: "date it0 = D \<longrightarrow> date it = D \<longrightarrow> date it1 = D" by blast
  from Cons.IH[OF r, of it1] obtain it' where
    "merge_timeline pdt items [(k, it1)] = [(k, it')]"
    "date it1 = D \<longrightarrow> list_all (\<lambda>it. date it = D) items \<longrightarrow> date it' = D" by blast
  then show ?case using m d k by auto
qed

lemma assess_with_events:
  assumes p: "fromisoformat e s = Some pdt"
    and ok: "ok1900 pdt"
    and ie: "impact_events e pdt svcs = Inr (cur, sc)"
    and ne: "cur \<noteq> []"
    and dates: "list_all (\<lambda>it. date it = strftime_b_d pdt) cur"
  shows "\<exists>r. assess_business_impact e s svcs = Inr r
           \<and> business_impact_level r = final_level cur
           \<and> overall_business_risk_score r = sc"
proof -
  let ?D = "strftime_b_d pdt"
  let ?k = "date_of (in_1900 pdt)"
  have sp: "strptime_b_d ?D = Inr (in_1900 pdt)"
    using ok by (simp add: ok1900_def strptime_strftime)
  define tl0 where "tl0 = \<lparr>date = ?D, event = ''Proposed Change'',
      level = (if str_in ''High'' (final_level cur) \<or> ''Critical'' \<in> set (map level cur)
               then ''Conflict''
               else if str_in ''Medium'' (final_level cur) \<or> ''Peak'' \<in> set (map level cur)
               then ''Peak'' else ''Safe'')\<rparr>"
  define tls where "tls = map (\<lambda>event_item. \<lparr>date = date event_item, event = event event_item,
                                        level = level event_item\<rparr>)
                    (filter (\<lambda>event_item. event event_item \<noteq> ''Proposed Change'') cur)"
  have td: "timeline_display pdt cur (final_level cur) = Inr (tl0 # tls)"
    using ne unfolding timeline_display_def tl0_def tls_def Let_def by simp
  have d0: "date tl0 = ?D" by (simp add: tl0_def)
  have ds: "list_all (\<lambda>it. date it = ?D) tls"
    using dates unfolding tls_def list_all_iff by simp
  have k0: "date_key pdt tl0 = ?k" using d0 sp by (simp add: date_key_def)
  have ks: "list_all (\<lambda>it. date_key pdt it = ?k) tls"
    using ds sp unfolding list_all_iff by (simp add: date_key_def)
  have "merge_timeline pdt (tl0 # tls) [] = merge_timeline pdt tls [(?k, tl0)]"
    using k0 by (simp add: merge_item_def)
  moreover from merge_same_day[OF ks, of tl0 ?D] obtain it' where
    "merge_timeline pdt tls [(?k, tl0)] = [(?k, it')]"
    "date tl0 = ?D \<longrightarrow> list_all (\<lambda>it. date it = ?D) tls \<longrightarrow> date it' = ?D"
    by blast
  ultimately have m: "merge_timeline pdt (tl0 # tls) [] = [(?k, it')]" and d': "date it' = ?D"
    using d0 ds by simp_all
  have st: "sorted_timeline [it'] = Inr [it']"
    using d' sp by (simp add: sorted_timeline_def)
  show ?thesis
    using p ie td m st ne
    by (simp add: assess_business_impact_def Let_def del: merge_timeline.simps)
qed

lemma prev_next_facts:
  assumes v: "valid_datetime pdt"
    and nl: "\<not> (is_leap (year pdt) \<and> (month pdt = 2 \<and> 28 \<le> day pdt \<or> month pdt = 3 \<and> day pdt = 1))"
    and lo: "\<not> (year pdt = 1 \<and> month pdt = 1 \<and> day pdt = 1)"
    and hi: "\<not> (year pdt = 9999 \<and> month pdt = 12 \<and> day pdt = 31)"
  shows "\<exists>b a. prev_day pdt = Inr b \<and> next_day pdt = Inr a
           \<and> ok1900 b \<and> ok1900 pdt \<and> ok1900 a
           \<and> (if month pdt = 1 \<and> day pdt = 1 then md_lt pdt a \<and> md_lt a b
               else if month pdt = 12 \<and> day pdt = 31 then md_lt a b \<and> md_lt b pdt
               else md_lt b pdt \<and> md_lt pdt a)"
proof -
  have m: "1 \<le> month pdt" "month pdt \<le> 12" and d: "1 \<le> day pdt"
    "day pdt \<le> days_in_month (year pdt) (month pdt)" and y: "1 \<le> year pdt" "year pdt \<le> 9999"
    using v by (simp_all add: valid_datetime_def)
  have okp: "ok1900 pdt"
    using m d nl by (auto simp: ok1900_def days_in_month_def not_leap_1900 split: if_splits)
  have ex_b: "\<exists>b. prev_day pdt = Inr b \<and> ok1900 b
      \<and> (if month pdt = 1 \<and> day pdt = 1 then month b = 12 \<and> day b = 31 else md_lt b pdt)
      \<and> (month pdt = 12 \<and> day pdt = 31 \<longrightarrow> month b = 12 \<and> day b = 30)"
  proof (cases "1 < day pdt")
    case True
    then show ?thesis
      using m d okp by (auto simp: prev_day_def ok1900_def md_lt_def)
  next
    case False
    then have d1: "day pdt = 1" using d by simp
    show ?thesis
    proof (cases "1 < month pdt")
      case True
      then show ?thesis
        using m d1 nl
        by (auto simp: prev_day_def ok1900_def md_lt_def days_in_month_def not_leap_1900)
    next
      case False
      then have "month pdt = 1" using m by simp
      then show ?thesis
        using d1 lo y by (auto simp: prev_day_def ok1900_def md_lt_def days_in_month_def)
    qed
  qed
  have ex_a: "\<exists>a. next_day pdt = Inr a \<and> ok1900 a
      \<and> (if month pdt = 12 \<and> day pdt = 31 then month a = 1 \<and> day a = 1 else md_lt pdt a)
      \<and> (month pdt = 1 \<and> day pdt = 1 \<longrightarrow> month a = 1 \<and> day a = 2)"
  proof (cases "day pdt < days_in_month (year pdt) (month pdt)")
    case True
    then show ?thesis
      using m d nl
      by (auto simp: next_day_def ok1900_def md_lt_def days_in_month_def not_leap_1900
               split: if_splits)
  next
    case False
    then have dl: "day pdt = days_in_month (year pdt) (month pdt)" using d by simp
    show ?thesis
    proof (cases "month pdt < 12")
      case True
      then show ?thesis
        using m dl
        by (auto simp: next_day_def ok1900_def md_lt_def days_in_month_def not_leap_1900)
    next
      case False
      then have "month pdt = 12" using m by simp
      then show ?thesis
        using dl hi y by (auto simp: next_day_def ok1900_def md_lt_def days_in_month_def)
    qed
  qed
  from ex_b obtain b where b: "prev_day pdt = Inr b" "ok1900 b"
    "if month pdt = 1 \<and> day pdt = 1 then month b = 12 \<and> day b = 31 else md_lt b pdt"
    "month pdt = 12 \<and> day pdt = 31 \<longrightarrow> month b = 12 \<and> day b = 30" by blast
  from ex_a obtain a where a: "next_day pdt = Inr a" "ok1900 a"
    "if month pdt = 12 \<and> day pdt = 31 then month a = 1 \<and> day a = 1 else md_lt pdt a"
    "month pdt = 1 \<and> day pdt = 1 \<longrightarrow> month a = 1 \<and> day a = 2" by blast
  have "if month pdt = 1 \<and> day pdt = 1 then md_lt pdt a \<and> md_lt a b
        else if month pdt = 12 \<and> day pdt = 31 then md_lt a b \<and> md_lt b pdt
        else md_lt b pdt \<and> md_lt pdt a"
  proof (cases "month pdt = 1 \<and> day pdt = 1")
    case True
    then have "md_lt pdt a" using a(3) by simp
    moreover have "md_lt a b"
      using True a(4) b(3) by (simp add: md_lt_def)
    ultimately show ?thesis using True by simp
  next
    case False
    note nj = this
    show ?thesis
    proof (cases "month pdt = 12 \<and> day pdt = 31")
      case True
      then have "md_lt b pdt" using b(3) by simp
      moreover have "md_lt a b"
        using True a(3) b(4) by (simp add: md_lt_def)
      ultimately show ?thesis using True by simp
    next
      case False
      then show ?thesis using nj a(3) b(3) by auto
    qed
  qed
  then show ?thesis using a b okp by blast
qed

lemma safe_timeline_result:
  assumes p: "fromisoformat e s = Some pdt" and v: "valid_datetime pdt"
    and ie: "impact_events e pdt svcs = Inr ([], 0)"
    and nl: "\<not> (is_leap (year pdt)
                \<and> (month pdt = 2 \<and> 28 \<le> day pdt \<or> month pdt = 3 \<and> day pdt = 1))"
    and lo: "\<not> (year pdt = 1 \<and> month pdt = 1 \<and> day pdt = 1)"
    and hi: "\<not> (year pdt = 9999 \<and> month pdt = 12 \<and> day pdt = 31)"
  shows "\<exists>day_before day_after.
           prev_day pdt = Inr day_before \<and> next_day pdt = Inr day_after
           \<and> assess_business_impact e s svcs =
               Inr \<lparr> business_impact_level = ''Low'', overall_business_risk_score = 0,
                     business_impact_timeline =
                       (let B = \<lparr>date = strftime_b_d day_before, event = ''Safe Window'',
                                 level = ''Safe''\<rparr>;
                            P = \<lparr>date = strftime_b_d pdt, event = ''Proposed Change'',
                                 level = ''Safe''\<rparr>;
                            A = \<lparr>date = strftime_b_d day_after, event = ''Safe Window'',
                                 level = ''Safe''\<rparr>
                        in if month pdt = 1 \<and> day pdt = 1 then [P, A, B]
                           else if month pdt = 12 \<and> day pdt = 31 then [A, B, P]
                           else [B, P, A]),
                     business_summary =
                       ''Business impact level: Low. Conflicts identified: None.'' \<rparr>"
proof -
  from prev_next_facts[OF v nl lo hi] obtain b a where
    b: "prev_day pdt = Inr b" and a: "next_day pdt = Inr a"
    and ok: "ok1900 b" "ok1900 pdt" "ok1900 a"
    and ord: "if month pdt = 1 \<and> day pdt = 1 then md_lt pdt a \<and> md_lt a b
              else if month pdt = 12 \<and> day pdt = 31 then md_lt a b \<and> md_lt b pdt
              else md_lt b pdt \<and> md_lt pdt a"
    by blast
  define B where "B = \<lparr>date = strftime_b_d b, event = ''Safe Window'', level = ''Safe''\<rparr>"
  define P where "P = \<lparr>date = strftime_b_d pdt, event = ''Proposed Change'', level = ''Safe''\<rparr>"
  define A where "A = \<lparr>date = strftime_b_d a, event = ''Safe Window'', level = ''Safe''\<rparr>"
  have fl: "final_level [] = ''Low''" by (simp add: final_level_def)
  have td: "timeline_display pdt [] ''Low'' = Inr [B, P, A]"
    using a b by (simp add: timeline_display_def B_def P_def A_def)
  have sp: "strptime_b_d (date B) = Inr (in_1900 b)" "strptime_b_d (date P) = Inr (in_1900 pdt)"
    "strptime_b_d (date A) = Inr (in_1900 a)"
    using ok by (simp_all add: B_def P_def A_def ok1900_def strptime_strftime)
  have dk: "date_key pdt B = date_of (in_1900 b)" "date_key pdt P = date_of (in_1900 pdt)"
    "date_key pdt A = date_of (in_1900 a)"
    using sp by (simp_all add: date_key_def)
  have three: "(md_lt pdt a \<and> md_lt a b \<and> md_lt pdt b) \<or> (md_lt a b \<and> md_lt b pdt \<and> md_lt a pdt)
      \<or> (md_lt b pdt \<and> md_lt pdt a \<and> md_lt b a)"
    using ord md_lt_trans[of pdt a b] md_lt_trans[of a b pdt] md_lt_trans[of b pdt a]
    by (cases "month pdt = 1 \<and> day pdt = 1"; cases "month pdt = 12 \<and> day pdt = 31") simp_all
  have distinct_keys: "date_of (in_1900 b) \<noteq> date_of (in_1900 pdt)"
    "date_of (in_1900 pdt) \<noteq> date_of (in_1900 a)" "date_of (in_1900 b) \<noteq> date_of (in_1900 a)"
    using three md_lt_ne[of pdt a] md_lt_ne[of a b] md_lt_ne[of pdt b] md_lt_ne[of b pdt]
      md_lt_ne[of a pdt] md_lt_ne[of b a]
    by blast+
  have mg: "map snd (merge_timeline pdt [B, P, A] []) = [B, P, A]"
    using distinct_keys by (auto simp: merge_item_def dk)
  have sk: "sort_keys [B, P, A]
      = Inr [(dt_key (in_1900 b), B), (dt_key (in_1900 pdt), P), (dt_key (in_1900 a), A)]"
    using sp by simp
  have st: "sorted_timeline [B, P, A]
      = Inr (if month pdt = 1 \<and> day pdt = 1 then [P, A, B]
             else if month pdt = 12 \<and> day pdt = 31 then [A, B, P]
             else [B, P, A])"
  proof (cases "month pdt = 1 \<and> day pdt = 1")
    case True
    then have o: "md_lt pdt a" "md_lt a b" using ord by simp_all
    have "md_lt pdt b" using o by (auto simp: md_lt_def)
    then show ?thesis
      using True key_order[OF o(1)] key_order[OF o(2)] key_order[OF \<open>md_lt pdt b\<close>]
      by (simp add: sorted_timeline_def sk del: sort_keys.simps)
  next
    case False
    note nj = this
    show ?thesis
    proof (cases "month pdt = 12 \<and> day pdt = 31")
      case True
      then have o: "md_lt a b" "md_lt b pdt" using ord nj by simp_all
      have "md_lt a pdt" using o by (auto simp: md_lt_def)
      then show ?thesis
        using True nj key_order[OF o(1)] key_order[OF o(2)] key_order[OF \<open>md_lt a pdt\<close>]
        by (simp add: sorted_timeline_def sk del: sort_keys.simps)
    next
      case False
      then have o: "md_lt b pdt" "md_lt pdt a" using ord nj by simp_all
      then show ?thesis
        using False nj key_order[OF o(1)] key_order[OF o(2)]
        by (auto simp: sorted_timeline_def sk simp del: sort_keys.simps)
    qed
  qed
  have "assess_business_impact e s svcs =
      Inr \<lparr> business_impact_level = ''Low'', overall_business_risk_score = 0,
            business_impact_timeline =
              (if month pdt = 1 \<and> day pdt = 1 then [P, A, B]
               else if month pdt = 12 \<and> day pdt = 31 then [A, B, P]
               else [B, P, A]),
            business_summary = ''Business impact level: Low. Conflicts identified: None.'' \<rparr>"
    by (simp add: assess_business_impact_def p ie fl td mg st del: merge_timeline.simps)
  then show ?thesis
    using a b by (simp add: B_def P_def A_def Let_def)
qed

subsection \<open>Contribution of the events to the score\<close>

lemma freeze_window:
  "event_window (cal_env evs) freeze_event
     = Inr (\<lparr>year = 2024, month = 1, day = 1, hour = 0, minute = 0, second = 0, microsecond = 0\<rparr>,
            \<lparr>year = 2024, month = 1, day = 31, hour = 23, minute = 59, second = 59, microsecond = 0\<rparr>)"
  by (simp add: event_window_def cal_env_sel freeze_event_def iso_parse_examples
        end_of_day_shift_def)

text \<open>
  C3, as stated, fails in its example: on a weekday between 09:00 and 17:59 the
  business-hours step adds 1, so a single matching Critical blackout event gives the
  score 8, not 7.
\<close>

theorem event_contributions_counterexample:
  "assess_business_impact (cal_env [freeze_event]) ''2024-01-10T10:00:00'' []
     = Inr \<lparr> business_impact_level = ''High'', overall_business_risk_score = 8,
             business_impact_timeline =
               [\<lparr>date = ''Jan 10'', event = ''Year-End Change Freeze'', level = ''Critical''\<rparr>],
             business_summary =
               ''Business impact level: High. Conflicts identified: Year-End Change Freeze, Peak Hours'' \<rparr>"
  by (simp add: eval_defs freeze_event_def)

text \<open>
  C3 (amended): every event that applies (its interval contains the proposed instant and
  it matches the involved services) contributes 5 for Critical, 3 for High, 1 for Medium
  and 0 otherwise, plus 2 for a blackout window.  When the timestamp parses to a valid
  date and time, the dates of all events parse and the day labels of the timeline parse
  back, the evaluation returns a result whose score is the sum of these contributions,
  plus 1 when the business-hours step fires (a weekday with hour 9 to 17 and no applying
  event with one of the three business-hours names).  The labels parse back when the
  proposed day is not 29 February and, if no event applies and the instant is outside
  weekday business hours (so that the timeline shows the day before and the day after),
  those two days exist and neither is 29 February.  When the calendar consists of a
  single event, which applies and is a Critical blackout window for \<open>all-systems\<close>, the
  level is High and the score is 7, or 8 when the instant is in weekday business hours
  and the event has none of the three business-hours names.
\<close>

theorem event_contributions:
  assumes p: "fromisoformat e s = Some pdt" and v: "valid_datetime pdt"
    and w: "list_all (window_ok e) (businessEvents e)"
    and nis: "nis = map (normalize_service_name e) (filter (\<lambda>s. s \<noteq> []) svcs)"
    and days: "if list_ex (event_applies e pdt nis) (businessEvents e)
                  \<or> is_weekday_business_hours pdt
               then \<not> (month pdt = 2 \<and> day pdt = 29)
               else \<not> (is_leap (year pdt)
                        \<and> (month pdt = 2 \<and> 28 \<le> day pdt \<or> month pdt = 3 \<and> day pdt = 1))
                    \<and> \<not> (year pdt = 1 \<and> month pdt = 1 \<and> day pdt = 1)
                    \<and> \<not> (year pdt = 9999 \<and> month pdt = 12 \<and> day pdt = 31)"
  shows "\<exists>r. assess_business_impact e s svcs = Inr r
     \<and> overall_business_risk_score r =
         sum_list (map event_points (filter (event_applies e pdt nis) (businessEvents e)))
         + (if is_weekday_business_hours pdt
               \<and> \<not> list_ex (\<lambda>ev. eventName ev \<in> set business_hours_events)
                      (filter (event_applies e pdt nis) (businessEvents e))
            then 1 else 0)
     \<and> (\<forall>ev. businessEvents e = [ev] \<and> event_applies e pdt nis ev
              \<and> criticality ev = ''Critical'' \<and> blackoutWindow ev
              \<and> impactedSystems ev = [''all-systems'']
          \<longrightarrow> business_impact_level r = ''High''
              \<and> overall_business_risk_score r =
                  (if is_weekday_business_hours pdt \<and> eventName ev \<notin> set business_hours_events
                   then 8 else 7))"
proof -
  let ?F = "filter (event_applies e pdt nis) (businessEvents e)"
  let ?peak = "is_weekday_business_hours pdt
               \<and> \<not> list_ex (\<lambda>ev. eventName ev \<in> set business_hours_events) ?F"
  let ?hits = "map (impact_entry pdt) ?F"
  let ?cur = "if ?peak
     then ?hits @ [\<lparr>date = strftime_b_d pdt, event = ''Peak Hours'', level = ''Peak''\<rparr>]
     else ?hits"
  let ?sc = "sum_list (map event_points ?F) + (if ?peak then 1 else 0)"
  have sc: "scan_events e pdt nis (businessEvents e) ([], 0)
              = Inr (?hits, sum_list (map event_points ?F))"
    using scan_events_result[OF w, of pdt nis "[]" 0] by simp
  have ie0: "impact_events e pdt svcs
      = Inr (peak_hours_step pdt (?hits, sum_list (map event_points ?F)))"
    using sc by (simp add: impact_events_def Let_def nis[symmetric])
  have ie: "impact_events e pdt svcs = Inr (?cur, ?sc)"
  proof (cases ?peak)
    case True
    then show ?thesis
      unfolding ie0 by (simp add: peak_hours_step_def list_ex_impact_entries)
  next
    case False
    then show ?thesis
      unfolding ie0 by (auto simp: peak_hours_step_def list_ex_impact_entries)
  qed
  have Fex: "list_ex (event_applies e pdt nis) (businessEvents e) = (?F \<noteq> [])"
    by (auto simp: list_ex_iff filter_empty_conv)
  have "\<exists>r. assess_business_impact e s svcs = Inr r
          \<and> business_impact_level r = final_level ?cur
          \<and> overall_business_risk_score r = ?sc"
  proof (cases "?F \<noteq> [] \<or> is_weekday_business_hours pdt")
    case True
    then have nf: "\<not> (month pdt = 2 \<and> day pdt = 29)"
      using days Fex by simp
    have ne: "?cur \<noteq> []"
    proof (cases "?F = []")
      case True
      then have "?peak" using \<open>?F \<noteq> [] \<or> is_weekday_business_hours pdt\<close> by simp
      then show ?thesis by simp
    next
      case False
      then show ?thesis by simp
    qed
    have dates: "list_all (\<lambda>it. date it = strftime_b_d pdt) ?cur"
      by (simp add: list_all_iff impact_entry_def)
    from assess_with_events[OF p ok1900_valid[OF v nf] ie ne dates] show ?thesis .
  next
    case False
    then have F: "?F = []" and bh: "\<not> is_weekday_business_hours pdt" by simp_all
    from False days Fex
    have nl: "\<not> (is_leap (year pdt)
                \<and> (month pdt = 2 \<and> 28 \<le> day pdt \<or> month pdt = 3 \<and> day pdt = 1))"
      and lo: "\<not> (year pdt = 1 \<and> month pdt = 1 \<and> day pdt = 1)"
      and hi: "\<not> (year pdt = 9999 \<and> month pdt = 12 \<and> day pdt = 31)"
      by simp_all
    have ie': "impact_events e pdt svcs = Inr ([], 0)"
      using ie F bh by simp
    from safe_timeline_result[OF p v ie' nl lo hi] obtain r where
      "assess_business_impact e s svcs = Inr r" "business_impact_level r = ''Low''"
      "overall_business_risk_score r = 0"
      by fastforce
    then show ?thesis using F bh by (simp add: final_level_def)
  qed
  then obtain r where
    r: "assess_business_impact e s svcs = Inr r" "business_impact_level r = final_level ?cur"
    "overall_business_risk_score r = ?sc" by blast
  have "business_impact_level r = ''High''
      \<and> overall_business_risk_score r =
           (if is_weekday_business_hours pdt \<and> eventName ev \<notin> set business_hours_events
            then 8 else 7)"
    if h: "businessEvents e = [ev] \<and> event_applies e pdt nis ev
           \<and> criticality ev = ''Critical'' \<and> blackoutWindow ev
           \<and> impactedSystems ev = [''all-systems'']" for ev
  proof -
    from h have h1: "businessEvents e = [ev]" and h2: "criticality ev = ''Critical''"
      and h3: "blackoutWindow ev" and h4: "event_applies e pdt nis ev" by simp_all
    have F: "?F = [ev]" using h1 h4 by simp
    have "final_level ?cur = ''High''"
      using h2 by (simp add: F final_level_def impact_entry_def)
    moreover have "?sc = (if is_weekday_business_hours pdt
                            \<and> eventName ev \<notin> set business_hours_events then 8 else 7)"
      using h2 h3 by (simp add: F event_points_def)
    ultimately show ?thesis using r by simp
  qed
  then show ?thesis using r by blast
qed

theorem event_contributions_witness:
  "fromisoformat (cal_env [freeze_event]) ''2024-01-13T20:00:00'' = Some sat_20
   \<and> valid_datetime sat_20
   \<and> list_all (window_ok (cal_env [freeze_event])) (businessEvents (cal_env [freeze_event]))
   \<and> list_ex (event_applies (cal_env [freeze_event]) sat_20 [])
        (businessEvents (cal_env [freeze_event]))
   \<and> \<not> (month sat_20 = 2 \<and> day sat_20 = 29)
   \<and> (\<exists>r. assess_business_impact (cal_env [freeze_event]) ''2024-01-13T20:00:00'' [] = Inr r
          \<and> business_impact_level r = ''High'' \<and> overall_business_risk_score r = 7)"
proof -
  let ?e = "cal_env [freeze_event]"
  have p: "fromisoformat ?e ''2024-01-13T20:00:00'' = Some sat_20"
    by (simp add: cal_env_sel iso_parse_examples sat_20_def)
  have v: "valid_datetime sat_20"
    by (simp add: sat_20_def valid_datetime_def days_in_month_def)
  have nf: "\<not> (month sat_20 = 2 \<and> day sat_20 = 29)" by (simp add: sat_20_def)
  have w: "list_all (window_ok ?e) (businessEvents ?e)"
    by (simp add: cal_env_sel window_ok_def freeze_window)
  have nis: "[] = map (normalize_service_name ?e) (filter (\<lambda>s. s \<noteq> []) [])" by simp
  have im: "impact_match ?e [] freeze_event"
    by (simp add: impact_match_def freeze_event_def)
  have ap: "event_applies ?e sat_20 [] freeze_event"
    by (simp add: event_applies_def freeze_window im sat_20_def dt_le_def dt_key_def)
  then have m: "list_ex (event_applies ?e sat_20 []) (businessEvents ?e)"
    by (simp add: cal_env_sel)
  have bh: "\<not> is_weekday_business_hours sat_20"
    by (simp add: is_weekday_business_hours_def sat_20_def)
  have days: "if list_ex (event_applies ?e sat_20 []) (businessEvents ?e)
                  \<or> is_weekday_business_hours sat_20
               then \<not> (month sat_20 = 2 \<and> day sat_20 = 29)
               else \<not> (is_leap (year sat_20)
                        \<and> (month sat_20 = 2 \<and> 28 \<le> day sat_20
                            \<or> month sat_20 = 3 \<and> day sat_20 = 1))
                    \<and> \<not> (year sat_20 = 1 \<and> month sat_20 = 1 \<and> day sat_20 = 1)
                    \<and> \<not> (year sat_20 = 9999 \<and> month sat_20 = 12 \<and> day sat_20 = 31)"
    using m nf by simp
  from event_contributions[OF p v w nis days] obtain r where
    r: "assess_business_impact ?e ''2024-01-13T20:00:00'' [] = Inr r"
    and part: "\<forall>ev. businessEvents ?e = [ev] \<and> event_applies ?e sat_20 [] ev
              \<and> criticality ev = ''Critical'' \<and> blackoutWindow ev
              \<and> impactedSystems ev = [''all-systems'']
          \<longrightarrow> business_impact_level r = ''High''
              \<and> overall_business_risk_score r =
                  (if is_weekday_business_hours sat_20 \<and> eventName ev \<notin> set business_hours_events
                   then 8 else 7)"
    by blast
  have "businessEvents ?e = [freeze_event] \<and> event_applies ?e sat_20 [] freeze_event
        \<and> criticality freeze_event = ''Critical''
        \<and> blackoutWindow freeze_event \<and> impactedSystems freeze_event = [''all-systems'']"
    using ap by (simp add: cal_env_sel freeze_event_def)
  with part bh have "business_impact_level r = ''High'' \<and> overall_business_risk_score r = 7"
    by simp
  then show ?thesis using p v w m nf r by blast
qed

subsection \<open>The business-hours step\<close>

text \<open>
  C4, as stated, fails: the test is on the hour alone, so a weekday at 17:30 is inside
  the window and gets the adjustment and the synthetic event.
\<close>

theorem peak_1730_counterexample:
  "assess_business_impact (cal_env []) ''2024-01-10T17:30:00'' []
     = Inr \<lparr> business_impact_level = ''Low'', overall_business_risk_score = 1,
             business_impact_timeline =
               [\<lparr>date = ''Jan 10'', event = ''Proposed Change, Peak Hours'', level = ''Peak''\<rparr>],
             business_summary = ''Business impact level: Low. Conflicts identified: Peak Hours'' \<rparr>"
  by (simp add: impact_defs calendar_defs cal_env_sel iso_parse_examples upt_rec Let_def)

text \<open>
  C4 (amended): after the event loop has recorded the events \<open>cur\<close> with score
  \<open>sc\<close>, the step adds 1 and records the Peak Hours event with level Peak exactly when
  the instant is on a weekday, its hour is between 9 and 17 inclusive (the times from
  09:00:00 to 17:59:59) and no recorded event has one of the three names; otherwise it
  changes nothing.  The score of the result is the score after this step.
\<close>

theorem peak_hours_adjustment:
  assumes sc: "scan_events e pdt (map (normalize_service_name e) (filter (\<lambda>s. s \<noteq> []) svcs))
                 (businessEvents e) ([], 0) = Inr (cur, sc)"
    and v: "valid_datetime pdt"
  shows "impact_events e pdt svcs =
           Inr (if isoweekday pdt \<le> 5 \<and> 9 \<le> hour pdt \<and> hour pdt \<le> 17
                   \<and> \<not> list_ex (\<lambda>it. event it = ''Peak Hours''
                                    \<or> event it = ''Monthly Payroll Processing''
                                    \<or> event it = ''Black Friday Sale Preparation'') cur
                then (cur @ [\<lparr>date = strftime_b_d pdt, event = ''Peak Hours'',
                              level = ''Peak''\<rparr>], sc + 1)
                else (cur, sc))
       \<and> ((9 \<le> hour pdt \<and> hour pdt \<le> 17)
            = (9 * 3600 \<le> hour pdt * 3600 + minute pdt * 60 + second pdt
               \<and> hour pdt * 3600 + minute pdt * 60 + second pdt < 18 * 3600))
       \<and> (\<forall>r. fromisoformat e s = Some pdt \<and> assess_business_impact e s svcs = Inr r
              \<longrightarrow> overall_business_risk_score r =
                   sc + (if isoweekday pdt \<le> 5 \<and> 9 \<le> hour pdt \<and> hour pdt \<le> 17
                            \<and> \<not> list_ex (\<lambda>it. event it = ''Peak Hours''
                                    \<or> event it = ''Monthly Payroll Processing''
                                    \<or> event it = ''Black Friday Sale Preparation'') cur
                         then 1 else 0))"
proof -
  let ?C = "isoweekday pdt \<le> 5 \<and> 9 \<le> hour pdt \<and> hour pdt \<le> 17
            \<and> \<not> list_ex (\<lambda>it. event it = ''Peak Hours''
                             \<or> event it = ''Monthly Payroll Processing''
                             \<or> event it = ''Black Friday Sale Preparation'') cur"
  let ?res = "if ?C then (cur @ [\<lparr>date = strftime_b_d pdt, event = ''Peak Hours'',
                                    level = ''Peak''\<rparr>], sc + 1)
              else (cur, sc)"
  have ie: "impact_events e pdt svcs = Inr ?res"
    using sc
    by (simp add: impact_events_def peak_hours_step_def is_weekday_business_hours_def
          business_hours_events_def Let_def)
  have m: "minute pdt < 60" and se: "second pdt < 60"
    using v by (simp_all add: valid_datetime_def)
  have tod: "(9 \<le> hour pdt \<and> hour pdt \<le> 17)
            = (9 * 3600 \<le> hour pdt * 3600 + minute pdt * 60 + second pdt
               \<and> hour pdt * 3600 + minute pdt * 60 + second pdt < 18 * 3600)"
    using m se by arith
  have fin: "overall_business_risk_score r = sc + (if ?C then 1 else 0)"
    if "fromisoformat e s = Some pdt \<and> assess_business_impact e s svcs = Inr r" for r
    using that ie
    by (auto simp: assess_business_impact_def Let_def split: sum.splits if_splits
             simp del: merge_timeline.simps)
  show ?thesis using ie tod fin by blast
qed

theorem peak_hours_adjustment_witness:
  "scan_events (cal_env []) wed_10
       (map (normalize_service_name (cal_env [])) (filter (\<lambda>s. s \<noteq> []) []))
       (businessEvents (cal_env [])) ([], 0) = Inr ([], 0)
   \<and> valid_datetime wed_10
   \<and> impact_events (cal_env []) wed_10 []
       = Inr ([\<lparr>date = ''Jan 10'', event = ''Peak Hours'', level = ''Peak''\<rparr>], 1)"
proof -
  have sc: "scan_events (cal_env []) wed_10
       (map (normalize_service_name (cal_env [])) (filter (\<lambda>s. s \<noteq> []) []))
       (businessEvents (cal_env [])) ([], 0) = Inr ([], 0)"
    by (simp add: cal_env_sel)
  have v: "valid_datetime wed_10"
    by (simp add: wed_10_def valid_datetime_def days_in_month_def)
  have wd: "isoweekday wed_10 = 3"
    by (simp add: wed_10_def calendar_defs upt_rec)
  have fmt: "strftime_b_d wed_10 = ''Jan 10''"
    by (simp add: wed_10_def calendar_defs)
  have hr: "hour wed_10 = 10" by (simp add: wed_10_def)
  show ?thesis
    using sc v peak_hours_adjustment[OF sc v, of "''2024-01-10T10:00:00''"]
    by (simp add: wd fmt hr)
qed

subsection \<open>The timeline without impact events\<close>

text \<open>
  C5, as stated, fails: the timeline is sorted by month and day without the year, so for
  a proposed instant on 1 January the entry of the day before (31 December) comes last.
\<close>

theorem safe_window_counterexample:
  "assess_business_impact (cal_env []) ''2023-01-01T20:00:00'' []
     = Inr \<lparr> business_impact_level = ''Low'', overall_business_risk_score = 0,
             business_impact_timeline =
               [\<lparr>date = ''Jan 01'', event = ''Proposed Change'', level = ''Safe''\<rparr>,
                \<lparr>date = ''Jan 02'', event = ''Safe Window'', level = ''Safe''\<rparr>,
                \<lparr>date = ''Dec 31'', event = ''Safe Window'', level = ''Safe''\<rparr>],
             business_summary = ''Business impact level: Low. Conflicts identified: None.'' \<rparr>"
  by (simp add: eval_defs)

text \<open>
  The sort parses every label outside any handler, and \<open>Feb 29\<close> does not parse in the
  default year 1900: on a leap day the evaluation raises.
\<close>

lemma leap_day_raises:
  "assess_business_impact (cal_env []) ''2024-02-29T20:00:00'' [] = Inl ValueError"
  by (simp add: eval_defs)

text \<open>
  C5 (amended): for a proposed instant that lies in the interval of no event and is not
  in weekday business hours, whose day before and day after exist and are, like the day
  itself, not 29 February, the evaluation returns level Low, score 0 and a timeline of
  exactly three entries, all with level Safe: Safe Window on the day before, Proposed
  Change on the day, Safe Window on the day after, in ascending order of month and day.
  That is the order before, proposed, after, except on 1 January (proposed, after,
  before) and on 31 December (after, before, proposed).
\<close>

theorem safe_window_timeline:
  assumes p: "fromisoformat e s = Some pdt" and v: "valid_datetime pdt"
    and ev: "list_all (outside_window e pdt) (businessEvents e)"
    and bh: "\<not> is_weekday_business_hours pdt"
    and nl: "\<not> (is_leap (year pdt)
                \<and> (month pdt = 2 \<and> 28 \<le> day pdt \<or> month pdt = 3 \<and> day pdt = 1))"
    and lo: "\<not> (year pdt = 1 \<and> month pdt = 1 \<and> day pdt = 1)"
    and hi: "\<not> (year pdt = 9999 \<and> month pdt = 12 \<and> day pdt = 31)"
  shows "\<exists>day_before day_after.
           prev_day pdt = Inr day_before \<and> next_day pdt = Inr day_after
           \<and> assess_business_impact e s svcs =
               Inr \<lparr> business_impact_level = ''Low'', overall_business_risk_score = 0,
                     business_impact_timeline =
                       (let B = \<lparr>date = strftime_b_d day_before, event = ''Safe Window'',
                                 level = ''Safe''\<rparr>;
                            P = \<lparr>date = strftime_b_d pdt, event = ''Proposed Change'',
                                 level = ''Safe''\<rparr>;
                            A = \<lparr>date = strftime_b_d day_after, event = ''Safe Window'',
                                 level = ''Safe''\<rparr>
                        in if month pdt = 1 \<and> day pdt = 1 then [P, A, B]
                           else if month pdt = 12 \<and> day pdt = 31 then [A, B, P]
                           else [B, P, A]),
                     business_summary =
                       ''Business impact level: Low. Conflicts identified: None.'' \<rparr>"
proof -
  have ie: "impact_events e pdt svcs = Inr ([], 0)"
    using scan_events_outside[OF ev] bh by (simp add: impact_events_def peak_hours_step_def)
  from p v ie nl lo hi show ?thesis by (rule safe_timeline_result)
qed

theorem safe_window_timeline_witness:
  "fromisoformat (cal_env [holiday_event]) ''2024-01-13T20:00:00'' = Some sat_20
   \<and> valid_datetime sat_20
   \<and> list_all (outside_window (cal_env [holiday_event]) sat_20)
        (businessEvents (cal_env [holiday_event]))
   \<and> \<not> is_weekday_business_hours sat_20
   \<and> assess_business_impact (cal_env [holiday_event]) ''2024-01-13T20:00:00'' [''auth-service'']
      = Inr \<lparr> business_impact_level = ''Low'', overall_business_risk_score = 0,
             business_impact_timeline =
               [\<lparr>date = ''Jan 12'', event = ''Safe Window'', level = ''Safe''\<rparr>,
                \<lparr>date = ''Jan 13'', event = ''Proposed Change'', level = ''Safe''\<rparr>,
                \<lparr>date = ''Jan 14'', event = ''Safe Window'', level = ''Safe''\<rparr>],
             business_summary = ''Business impact level: Low. Conflicts identified: None.'' \<rparr>"
proof -
  let ?e = "cal_env [holiday_event]"
  have p: "fromisoformat ?e ''2024-01-13T20:00:00'' = Some sat_20"
    by (simp add: cal_env_sel iso_parse_examples sat_20_def)
  have v: "valid_datetime sat_20"
    by (simp add: sat_20_def valid_datetime_def days_in_month_def)
  have w: "event_window ?e holiday_event
     = Inr (\<lparr>year = 2024, month = 1, day = 1, hour = 0, minute = 0, second = 0, microsecond = 0\<rparr>,
            \<lparr>year = 2024, month = 1, day = 1, hour = 23, minute = 59, second = 59, microsecond = 0\<rparr>)"
    by (simp add: event_window_def cal_env_sel holiday_event_def iso_parse_examples
          end_of_day_shift_def)
  have ev: "list_all (outside_window ?e sat_20) (businessEvents ?e)"
    by (simp add: cal_env_sel outside_window_def w sat_20_def dt_le_def dt_key_def)
  have bh: "\<not> is_weekday_business_hours sat_20"
    by (simp add: is_weekday_business_hours_def sat_20_def)
  have nl: "\<not> (is_leap (year sat_20)
                \<and> (month sat_20 = 2 \<and> 28 \<le> day sat_20 \<or> month sat_20 = 3 \<and> day sat_20 = 1))"
    by (simp add: sat_20_def)
  have lo: "\<not> (year sat_20 = 1 \<and> month sat_20 = 1 \<and> day sat_20 = 1)" by (simp add: sat_20_def)
  have hi: "\<not> (year sat_20 = 9999 \<and> month sat_20 = 12 \<and> day sat_20 = 31)"
    by (simp add: sat_20_def)
  have pd: "prev_day sat_20 = Inr (sat_20\<lparr>day := 12\<rparr>)"
    by (simp add: prev_day_def sat_20_def)
  have nd: "next_day sat_20 = Inr (sat_20\<lparr>day := 14\<rparr>)"
    by (simp add: next_day_def sat_20_def days_in_month_def)
  have fmt: "strftime_b_d sat_20 = ''Jan 13''" "strftime_b_d (sat_20\<lparr>day := 12\<rparr>) = ''Jan 12''"
    "strftime_b_d (sat_20\<lparr>day := 14\<rparr>) = ''Jan 14''"
    by (simp_all add: sat_20_def calendar_defs)
  have md: "month sat_20 = 1" "day sat_20 = 13" by (simp_all add: sat_20_def)
  from safe_window_timeline[OF p v ev bh nl lo hi, of "[''auth-service'']"]
  have "assess_business_impact ?e ''2024-01-13T20:00:00'' [''auth-service'']
      = Inr \<lparr> business_impact_level = ''Low'', overall_business_risk_score = 0,
             business_impact_timeline =
               [\<lparr>date = ''Jan 12'', event = ''Safe Window'', level = ''Safe''\<rparr>,
                \<lparr>date = ''Jan 13'', event = ''Proposed Change'', level = ''Safe''\<rparr>,
                \<lparr>date = ''Jan 14'', event = ''Safe Window'', level = ''Safe''\<rparr>],
             business_summary = ''Business impact level: Low. Conflicts identified: None.'' \<rparr>"
    by (simp add: pd nd fmt md Let_def)
  then show ?thesis using p v ev bh by simp
qed

subsection \<open>Merging entries of one day\<close>

text \<open>
  C6, as stated, fails: the Peak entry has the lower priority and is dropped; labels are
  joined only when the priorities are equal.  Here a Medium event and the synthetic
  Peak Hours event fall on the proposed day and the merged entry is labelled with the
  Medium event alone.
\<close>

theorem medium_peak_counterexample:
  "assess_business_impact (cal_env [review_event]) ''2024-01-10T10:00:00'' []
     = Inr \<lparr> business_impact_level = ''Medium'', overall_business_risk_score = 2,
             business_impact_timeline =
               [\<lparr>date = ''Jan 10'', event = ''Quarterly Review'', level = ''Medium''\<rparr>],
             business_summary =
               ''Business impact level: Medium. Conflicts identified: Quarterly Review, Peak Hours'' \<rparr>
   \<and> \<not> str_in ''Peak Hours'' ''Quarterly Review''"
  by (simp add: eval_defs review_event_def)

text \<open>
  C6 (amended): two timeline entries of the same calendar day with levels Medium and
  Peak merge, in either order, into the Medium entry unchanged: its level is Medium and
  its label is the label of the Medium entry alone.
\<close>

theorem merge_medium_peak:
  assumes "level a = ''Medium''" "level b = ''Peak''" "date_key pdt a = date_key pdt b"
  shows "map snd (merge_timeline pdt [a, b] []) = [a]
       \<and> map snd (merge_timeline pdt [b, a] []) = [a]"
  using assms by (simp add: merge_item_def level_priority_def)

theorem merge_medium_peak_witness:
  "level \<lparr>date = ''Jan 10'', event = ''Quarterly Review'', level = ''Medium''\<rparr> = ''Medium''
   \<and> level \<lparr>date = ''Jan 10'', event = ''Peak Hours'', level = ''Peak''\<rparr> = ''Peak''
   \<and> map snd (merge_timeline \<lparr>year = 2024, month = 1, day = 10, hour = 10, minute = 0,
                               second = 0, microsecond = 0\<rparr>
        [\<lparr>date = ''Jan 10'', event = ''Quarterly Review'', level = ''Medium''\<rparr>,
         \<lparr>date = ''Jan 10'', event = ''Peak Hours'', level = ''Peak''\<rparr>] [])
       = [\<lparr>date = ''Jan 10'', event = ''Quarterly Review'', level = ''Medium''\<rparr>]"
  using merge_medium_peak[of "\<lparr>date = ''Jan 10'', event = ''Quarterly Review'', level = ''Medium''\<rparr>"
      "\<lparr>date = ''Jan 10'', event = ''Peak Hours'', level = ''Peak''\<rparr>"
      "\<lparr>year = 2024, month = 1, day = 10, hour = 10, minute = 0, second = 0, microsecond = 0\<rparr>"]
  by (simp add: date_key_def)

text \<open>
  C10: when an incoming entry ties in priority with the entry already stored for its
  day, its label is appended (after a comma) only if it is not a substring of the stored
  label; otherwise the stored entry is left as it is.  So with two High events named
  \<open>Peak Hours\<close> and \<open>Peak\<close> on the proposed day, the merged label is \<open>Peak Hours\<close>
  and the event \<open>Peak\<close> is not shown.
\<close>

theorem tie_merge_substring:
  assumes "map_of u k = Some existing"
    and "level_priority (level item) = level_priority (level existing)"
  shows "merge_item u k item =
           (if str_in (event item) (event existing) then u
            else dict_set u k (existing\<lparr>event := event existing @ '', '' @ event item\<rparr>))
       \<and> str_in ''Peak'' ''Peak Hours'' \<and> ''Peak'' \<noteq> ''Peak Hours''
       \<and> assess_business_impact (cal_env peak_events) ''2024-01-13T20:00:00'' []
           = Inr \<lparr> business_impact_level = ''Medium'', overall_business_risk_score = 6,
                   business_impact_timeline =
                     [\<lparr>date = ''Jan 13'', event = ''Peak Hours'', level = ''High''\<rparr>],
                   business_summary =
                     ''Business impact level: Medium. Conflicts identified: Peak Hours, Peak'' \<rparr>"
proof -
  have 1: "merge_item u k item =
           (if str_in (event item) (event existing) then u
            else dict_set u k (existing\<lparr>event := event existing @ '', '' @ event item\<rparr>))"
    using assms by (simp add: merge_item_def)
  have 2: "assess_business_impact (cal_env peak_events) ''2024-01-13T20:00:00'' []
           = Inr \<lparr> business_impact_level = ''Medium'', overall_business_risk_score = 6,
                   business_impact_timeline =
                     [\<lparr>date = ''Jan 13'', event = ''Peak Hours'', level = ''High''\<rparr>],
                   business_summary =
                     ''Business impact level: Medium. Conflicts identified: Peak Hours, Peak'' \<rparr>"
    by (simp add: eval_defs peak_events_def)
  show ?thesis using 1 2 by simp
qed

theorem tie_merge_substring_witness:
  "map_of [((1900, 1, 13), \<lparr>date = ''Jan 13'', event = ''Peak Hours'', level = ''High''\<rparr>)]
      (1900, 1, 13) = Some \<lparr>date = ''Jan 13'', event = ''Peak Hours'', level = ''High''\<rparr>
   \<and> level_priority ''High'' = level_priority ''High''
   \<and> merge_item [((1900, 1, 13), \<lparr>date = ''Jan 13'', event = ''Peak Hours'', level = ''High''\<rparr>)]
        (1900, 1, 13) \<lparr>date = ''Jan 13'', event = ''Peak'', level = ''High''\<rparr>
       = [((1900, 1, 13), \<lparr>date = ''Jan 13'', event = ''Peak Hours'', level = ''High''\<rparr>)]"
  using tie_merge_substring[of
      "[((1900, 1, 13), \<lparr>date = ''Jan 13'', event = ''Peak Hours'', level = ''High''\<rparr>)]"
      "(1900, 1, 13)" "\<lparr>date = ''Jan 13'', event = ''Peak Hours'', level = ''High''\<rparr>"
      "\<lparr>date = ''Jan 13'', event = ''Peak'', level = ''High''\<rparr>"]
  by simp

section \<open>Properties of the risk aggregation\<close>

lemma raw_eq: "calculated_risk_value fp t d b p = spec_raw fp t d b p"
  by (simp add: calculated_risk_value_def spec_raw_def weight_def RISK_WEIGHTS_def
        PRIORITY_ADJUSTMENTS_def fmul_def Let_def mult.commute)

text \<open>
  C2: for all inputs the aggregator computes the specification's formulas.  When the
  rounding is monotone and leaves 0, 1, 9 and 10 unchanged, and rounding to one decimal
  leaves 1 and 10 unchanged (as holds for IEEE 754 double arithmetic and for Python's
  \<open>round\<close>, these numbers being floats), the inputs \<open>(0, 0, 0, Medium)\<close> give the
  normalized score 1, the safety score 10 and the level LOW, and every input whose raw
  value is at least 15 gives the normalized score 10, the safety score 1 and the level
  HIGH.
\<close>

theorem aggregate_formula:
  assumes mono: "\<And>x y. x \<le> y \<Longrightarrow> rnd fp x \<le> rnd fp y"
    and ex: "rnd fp 0 = 0" "rnd fp 1 = 1" "rnd fp 9 = 9" "rnd fp 10 = 10"
    and r1: "round1 fp 1 = 1" "round1 fp 10 = 10"
  shows "assess_risk_score fp t d b p = spec_aggregate fp t d b p
       \<and> assess_risk_score fp 0 0 0 ''Medium''
           = \<lparr>normalized_risk = 1, credit_score = 10, risk_level = ''LOW''\<rparr>
       \<and> (15 \<le> calculated_risk_value fp t d b p \<longrightarrow>
            assess_risk_score fp t d b p
              = \<lparr>normalized_risk = 10, credit_score = 1, risk_level = ''HIGH''\<rparr>)"
proof -
  have gen: "assess_risk_score fp t d b p = spec_aggregate fp t d b p"
    by (simp add: assess_risk_score_def spec_aggregate_def raw_eq clamp_def
          MAX_CALCULATED_RISK_def Let_def)
  have z: "calculated_risk_value fp 0 0 0 ''Medium'' = 0"
    by (simp add: calculated_risk_value_def weight_def RISK_WEIGHTS_def PRIORITY_ADJUSTMENTS_def
          fmul_def fadd_def ex Let_def)
  have zero: "assess_risk_score fp 0 0 0 ''Medium''
           = \<lparr>normalized_risk = 1, credit_score = 10, risk_level = ''LOW''\<rparr>"
    by (simp add: assess_risk_score_def z fmul_def fdiv_def fadd_def fsub_def ex r1 Let_def)
  have sat: "assess_risk_score fp t d b p
              = \<lparr>normalized_risk = 10, credit_score = 1, risk_level = ''HIGH''\<rparr>"
    if h: "15 \<le> calculated_risk_value fp t d b p"
  proof -
    let ?v = "calculated_risk_value fp t d b p"
    have "1 \<le> ?v / 15" using h by simp
    then have "rnd fp 1 \<le> rnd fp (?v / 15)" by (rule mono)
    then have q: "1 \<le> rnd fp (?v / 15)" by (simp add: ex)
    then have "10 \<le> rnd fp (?v / 15) * 10" by simp
    then have "rnd fp 10 \<le> rnd fp (rnd fp (?v / 15) * 10)" by (rule mono)
    then have n: "10 \<le> fmul fp (fdiv fp ?v MAX_CALCULATED_RISK) 10"
      by (simp add: ex fmul_def fdiv_def MAX_CALCULATED_RISK_def)
    then have nn: "max 1 (min 10 (fmul fp (fdiv fp ?v MAX_CALCULATED_RISK) 10)) = 10"
      by simp
    show ?thesis
      by (simp add: assess_risk_score_def nn fadd_def fsub_def ex r1 Let_def)
  qed
  show ?thesis using gen zero sat by blast
qed

theorem aggregate_formula_witness:
  "assess_risk_score exact_ops 0 0 0 ''Medium''
     = \<lparr>normalized_risk = 1, credit_score = 10, risk_level = ''LOW''\<rparr>
   \<and> 15 \<le> calculated_risk_value exact_ops 10 20 30 ''Critical''
   \<and> assess_risk_score exact_ops 10 20 30 ''Critical''
     = \<lparr>normalized_risk = 10, credit_score = 1, risk_level = ''HIGH''\<rparr>"
proof -
  have m: "\<And>x y. x \<le> y \<Longrightarrow> rnd exact_ops x \<le> rnd exact_ops y"
    by (simp add: exact_ops_def)
  have e: "rnd exact_ops 0 = 0" "rnd exact_ops 1 = 1" "rnd exact_ops 9 = 9" "rnd exact_ops 10 = 10"
    by (simp_all add: exact_ops_def)
  have r: "round1 exact_ops 1 = 1" "round1 exact_ops 10 = 10"
    by (simp_all add: exact_ops_def exact_round1_def)
  have v: "15 \<le> calculated_risk_value exact_ops 10 20 30 ''Critical''"
    by (simp add: calculated_risk_value_def weight_def RISK_WEIGHTS_def PRIORITY_ADJUSTMENTS_def
          fmul_def fadd_def exact_ops_def Let_def)
  from aggregate_formula[of exact_ops 10 20 30 "''Critical''", OF m e r] v
  show ?thesis by blast
qed

end
